theory Spec2Isabelle
  imports Complex_Main
begin

section \<open>Strings\<close>

text \<open>
  A JavaScript string is modelled as a \<open>string\<close> whose characters are the code units
  U+0000 to U+00FF. On that range \<open>String.prototype.trim\<close> and the regular-expression
  class \<open>\s\<close> agree on the seven characters below; \<open>\d\<close> is the ten ASCII digits, and
  the regular-expression dot matches everything but a line terminator. Of the four line
  terminators of the language, line feed and carriage return lie in this range; U+2028
  and U+2029 do not, and neither does the white space above U+00FF. The perspective
  parser, whose result depends on them, is therefore modelled a second time on all code
  units (section \<open>Perspective parser on code units\<close>).
\<close>

definition is_ws :: "char \<Rightarrow> bool" where
  "is_ws c = (c = CHR 0x09 \<or> c = CHR 0x0A \<or> c = CHR 0x0B \<or> c = CHR 0x0C \<or> c = CHR 0x0D
              \<or> c = CHR 0x20 \<or> c = CHR 0xA0)"

definition is_digit :: "char \<Rightarrow> bool" where
  "is_digit c = (c = CHR ''0'' \<or> c = CHR ''1'' \<or> c = CHR ''2'' \<or> c = CHR ''3'' \<or> c = CHR ''4''
                 \<or> c = CHR ''5'' \<or> c = CHR ''6'' \<or> c = CHR ''7'' \<or> c = CHR ''8'' \<or> c = CHR ''9'')"

definition is_line_terminator :: "char \<Rightarrow> bool" where
  "is_line_terminator c = (c = CHR 0x0A \<or> c = CHR 0x0D)"

definition trim :: "string \<Rightarrow> string" where
  "trim s = rev (dropWhile is_ws (rev (dropWhile is_ws s)))"

text \<open>\<open>s.split(sep)\<close> for a one-character separator: the empty string gives one empty piece.\<close>

fun split_on :: "char \<Rightarrow> string \<Rightarrow> string list" where
  "split_on sep [] = [[]]"
| "split_on sep (c # cs) =
     (if c = sep then [] # split_on sep cs
      else (case split_on sep cs of [] \<Rightarrow> [[c]] | p # ps \<Rightarrow> (c # p) # ps))"

text \<open>
  \<open>s.split(/\n{2,}/)\<close>: the pattern is greedy, so a separator is a whole run of two or
  more line feeds; a single line feed stays inside its piece.
\<close>

function split_paragraphs :: "string \<Rightarrow> string list" where
  "split_paragraphs [] = [[]]"
| "split_paragraphs (c # cs) =
     (if c = CHR 0x0A \<and> (case cs of [] \<Rightarrow> False | d # _ \<Rightarrow> d = CHR 0x0A)
      then [] # split_paragraphs (dropWhile (\<lambda>d. d = CHR 0x0A) cs)
      else (case split_paragraphs cs of [] \<Rightarrow> [[c]] | p # ps \<Rightarrow> (c # p) # ps))"
  by pat_completeness auto
termination
  by (relation "measure length") (auto simp: less_Suc_eq_le length_dropWhile_le)

text \<open>
  \<open>str.slice(0, n)\<close> for \<open>n \<ge> 0\<close> is \<open>take n str\<close>. JavaScript's
  \<open>sections.join('\n\n')\<close>:
\<close>

fun join :: "string \<Rightarrow> string list \<Rightarrow> string" where
  "join sep [] = []"
| "join sep [x] = x"
| "join sep (x # y # ys) = x @ sep @ join sep (y # ys)"

text \<open>Decimal rendering of a number inside a template literal.\<close>

definition digit_char :: "nat \<Rightarrow> char" where
  "digit_char d = ''0123456789'' ! d"

fun string_of_nat :: "nat \<Rightarrow> string" where
  "string_of_nat n = (if n < 10 then [digit_char n] else string_of_nat (n div 10) @ [digit_char (n mod 10)])"

declare string_of_nat.simps [simp del]

definition string_of_int :: "int \<Rightarrow> string" where
  "string_of_int i = (if i < 0 then ''-'' @ string_of_nat (nat (- i)) else string_of_nat (nat i))"

text \<open>\<open>level.toUpperCase()\<close>; only the ASCII letters are mapped (the levels in use are
  \<open>info\<close> and \<open>error\<close>).\<close>

definition upper_char :: "char \<Rightarrow> char" where
  "upper_char c =
     (case map_of (zip ''abcdefghijklmnopqrstuvwxyz'' ''ABCDEFGHIJKLMNOPQRSTUVWXYZ'') c of
        Some u \<Rightarrow> u
      | None \<Rightarrow> c)"

definition toUpperCase :: "string \<Rightarrow> string" where
  "toUpperCase s = map upper_char s"

section \<open>Utility functions\<close>

text \<open>\<open>truncateForLog(message, maxLen)\<close>; \<open>slice(0, k)\<close> with a negative \<open>k\<close> counts from
  the end of the string.\<close>

definition truncateForLog :: "string \<Rightarrow> nat \<Rightarrow> string" where
  "truncateForLog message maxLen =
     (if message = [] then []
      else if length message > maxLen
           then (if 3 \<le> maxLen then take (maxLen - 3) message
                 else take (length message - (3 - maxLen)) message) @ ''...''
           else message)"

definition buildUserPrompt :: "string \<Rightarrow> string list \<Rightarrow> string" where
  "buildUserPrompt base extraSections = join ''\<newline>\<newline>'' (base # extraSections)"

section \<open>Perspective parser\<close>

text \<open>
  \<open>trimmed.match(/^(\d+)[.)]\s*(.+)$/)\<close>, returning the second group. \<open>\d+\<close> takes the
  whole digit run (a shorter one would be followed by a digit, not by the separator).
  \<open>\s*\<close> first takes the whole whitespace run; the dot does not match a line terminator
  and \<open>$\<close> is the end of the input, so the rest must be free of line terminators, and
  giving whitespace back cannot repair a rest that is not. Only when nothing is left after
  the whitespace does backtracking help: the last whitespace character becomes the rest.
\<close>

definition numbered_match :: "string \<Rightarrow> string option" where
  "numbered_match t =
     (let ds = takeWhile is_digit t; r1 = dropWhile is_digit t in
      if ds = [] then None
      else (case r1 of
              [] \<Rightarrow> None
            | c # r2 \<Rightarrow>
                if c = CHR ''.'' \<or> c = CHR '')''
                then (let rest = dropWhile is_ws r2 in
                      if rest \<noteq> []
                      then (if list_ex is_line_terminator rest then None else Some rest)
                      else if r2 \<noteq> [] \<and> \<not> is_line_terminator (last r2) then Some [last r2]
                      else None)
                else None))"

text \<open>The \<open>for (let line of lines)\<close> loop, pushing onto \<open>results\<close>.\<close>

fun parse_lines :: "string list \<Rightarrow> string list \<Rightarrow> string list" where
  "parse_lines [] results = results"
| "parse_lines (line # lines) results =
     (let trimmed = trim line in
      if trimmed = [] then parse_lines lines results
      else (case numbered_match trimmed of
              Some m2 \<Rightarrow> if m2 \<noteq> [] then parse_lines lines (results @ [trim m2])
                         else parse_lines lines results
            | None \<Rightarrow> parse_lines lines results))"

definition parsePerspectives :: "string \<Rightarrow> string list" where
  "parsePerspectives raw =
     (let results = parse_lines (split_on CHR 0x0A raw) [] in
      if length results = 0
      then filter (\<lambda>p. p \<noteq> []) (map trim (split_paragraphs raw))
      else results)"

text \<open>
  The parser as the specification words it: each line is matched against digits, a dot or
  a closing parenthesis, whitespace and a rest, and the trimmed rest is kept. \<open>min_ws\<close>
  is the least number of whitespace characters the pattern asks for and \<open>rest_ok\<close> says
  which rests it admits.
\<close>

definition numbered_item :: "nat \<Rightarrow> (string \<Rightarrow> bool) \<Rightarrow> string \<Rightarrow> string option" where
  "numbered_item min_ws rest_ok line =
     (let t = trim line; ds = takeWhile is_digit t; after = drop (length ds) t in
      if ds = [] \<or> after = [] then None
      else if hd after \<noteq> CHR ''.'' \<and> hd after \<noteq> CHR '')'' then None
      else (let ws = takeWhile is_ws (tl after); rest = trim (drop (length ws) (tl after)) in
            if min_ws \<le> length ws \<and> rest \<noteq> [] \<and> rest_ok rest then Some rest else None))"

definition parse_spec :: "nat \<Rightarrow> (string \<Rightarrow> bool) \<Rightarrow> string \<Rightarrow> string list" where
  "parse_spec min_ws rest_ok raw =
     (let kept = List.map_filter (numbered_item min_ws rest_ok) (split_on CHR 0x0A raw) in
      if kept = [] then filter (\<lambda>b. b \<noteq> []) (map trim (split_paragraphs raw)) else kept)"

definition any_rest :: "string \<Rightarrow> bool" where
  "any_rest rest = True"

definition no_line_terminator :: "string \<Rightarrow> bool" where
  "no_line_terminator rest = (\<not> list_ex is_line_terminator rest)"

section \<open>Perspective parser on code units\<close>

text \<open>
  A JavaScript string is a sequence of 16-bit code units, and \<open>split\<close>, \<open>trim\<close> and a
  regular expression without the \<open>u\<close> flag read it one code unit at a time. Here the
  parser of lines 316 to 340 is modelled on lists of code units, each given by its number,
  so that every input of the code is covered. Nothing below depends on a code unit being
  less than 65536.
\<close>

type_synonym code_unit = nat

text \<open>The code units of a string of the 8-bit model.\<close>

definition units_of :: "string \<Rightarrow> code_unit list" where
  "units_of s = map of_char s"

text \<open>
  \<open>\s\<close> and \<open>trim\<close> take the white space and the line terminators of the language:
  U+0009, U+000B, U+000C, U+0020, U+00A0, U+FEFF and the space separators U+1680, U+2000
  to U+200A, U+202F, U+205F, U+3000; U+000A, U+000D, U+2028 and U+2029.
\<close>

definition unit_is_ws :: "code_unit \<Rightarrow> bool" where
  "unit_is_ws u = (u = 0x09 \<or> u = 0x0A \<or> u = 0x0B \<or> u = 0x0C \<or> u = 0x0D \<or> u = 0x20
                   \<or> u = 0xA0 \<or> u = 0x1680 \<or> (0x2000 \<le> u \<and> u \<le> 0x200A)
                   \<or> u = 0x2028 \<or> u = 0x2029 \<or> u = 0x202F \<or> u = 0x205F \<or> u = 0x3000
                   \<or> u = 0xFEFF)"

text \<open>\<open>\d\<close> is \<open>[0-9]\<close>.\<close>

definition unit_is_digit :: "code_unit \<Rightarrow> bool" where
  "unit_is_digit u = (0x30 \<le> u \<and> u \<le> 0x39)"

text \<open>The dot matches every code unit but the four line terminators.\<close>

definition unit_is_line_terminator :: "code_unit \<Rightarrow> bool" where
  "unit_is_line_terminator u = (u = 0x0A \<or> u = 0x0D \<or> u = 0x2028 \<or> u = 0x2029)"

definition trim_units :: "code_unit list \<Rightarrow> code_unit list" where
  "trim_units s = rev (dropWhile unit_is_ws (rev (dropWhile unit_is_ws s)))"

text \<open>\<open>raw.split('\n')\<close>; line feed is the code unit 10.\<close>

fun split_on_units :: "code_unit \<Rightarrow> code_unit list \<Rightarrow> code_unit list list" where
  "split_on_units sep [] = [[]]"
| "split_on_units sep (c # cs) =
     (if c = sep then [] # split_on_units sep cs
      else (case split_on_units sep cs of [] \<Rightarrow> [[c]] | p # ps \<Rightarrow> (c # p) # ps))"

text \<open>\<open>raw.split(/\n{2,}/)\<close>.\<close>

function split_paragraphs_units :: "code_unit list \<Rightarrow> code_unit list list" where
  "split_paragraphs_units [] = [[]]"
| "split_paragraphs_units (c # cs) =
     (if c = 0x0A \<and> (case cs of [] \<Rightarrow> False | d # _ \<Rightarrow> d = 0x0A)
      then [] # split_paragraphs_units (dropWhile (\<lambda>d. d = 0x0A) cs)
      else (case split_paragraphs_units cs of [] \<Rightarrow> [[c]] | p # ps \<Rightarrow> (c # p) # ps))"
  by pat_completeness auto
termination
  by (relation "measure length") (auto simp: less_Suc_eq_le length_dropWhile_le)

text \<open>
  \<open>trimmed.match(/^(\d+)[.)]\s*(.+)$/)\<close>, returning the second group; the dot is the code
  unit \<open>0x2E\<close> and the closing parenthesis \<open>0x29\<close>.
\<close>

definition numbered_match_units :: "code_unit list \<Rightarrow> code_unit list option" where
  "numbered_match_units t =
     (let ds = takeWhile unit_is_digit t; r1 = dropWhile unit_is_digit t in
      if ds = [] then None
      else (case r1 of
              [] \<Rightarrow> None
            | c # r2 \<Rightarrow>
                if c = 0x2E \<or> c = 0x29
                then (let rest = dropWhile unit_is_ws r2 in
                      if rest \<noteq> []
                      then (if list_ex unit_is_line_terminator rest then None else Some rest)
                      else if r2 \<noteq> [] \<and> \<not> unit_is_line_terminator (last r2)
                      then Some [last r2]
                      else None)
                else None))"

fun parse_lines_units :: "code_unit list list \<Rightarrow> code_unit list list \<Rightarrow> code_unit list list" where
  "parse_lines_units [] results = results"
| "parse_lines_units (line # lines) results =
     (let trimmed = trim_units line in
      if trimmed = [] then parse_lines_units lines results
      else (case numbered_match_units trimmed of
              Some m2 \<Rightarrow> if m2 \<noteq> [] then parse_lines_units lines (results @ [trim_units m2])
                         else parse_lines_units lines results
            | None \<Rightarrow> parse_lines_units lines results))"

definition parsePerspectives_units :: "code_unit list \<Rightarrow> code_unit list list" where
  "parsePerspectives_units raw =
     (let results = parse_lines_units (split_on_units 0x0A raw) [] in
      if length results = 0
      then filter (\<lambda>p. p \<noteq> []) (map trim_units (split_paragraphs_units raw))
      else results)"

text \<open>The parser as the specification words it, on code units.\<close>

definition numbered_item_units ::
  "nat \<Rightarrow> (code_unit list \<Rightarrow> bool) \<Rightarrow> code_unit list \<Rightarrow> code_unit list option" where
  "numbered_item_units min_ws rest_ok line =
     (let t = trim_units line; ds = takeWhile unit_is_digit t; after = drop (length ds) t in
      if ds = [] \<or> after = [] then None
      else if hd after \<noteq> 0x2E \<and> hd after \<noteq> 0x29 then None
      else (let ws = takeWhile unit_is_ws (tl after);
                rest = trim_units (drop (length ws) (tl after)) in
            if min_ws \<le> length ws \<and> rest \<noteq> [] \<and> rest_ok rest then Some rest else None))"

definition parse_spec_units ::
  "nat \<Rightarrow> (code_unit list \<Rightarrow> bool) \<Rightarrow> code_unit list \<Rightarrow> code_unit list list" where
  "parse_spec_units min_ws rest_ok raw =
     (let kept = List.map_filter (numbered_item_units min_ws rest_ok) (split_on_units 0x0A raw) in
      if kept = [] then filter (\<lambda>b. b \<noteq> []) (map trim_units (split_paragraphs_units raw))
      else kept)"

definition no_line_terminator_units :: "code_unit list \<Rightarrow> bool" where
  "no_line_terminator_units rest = (\<not> list_ex unit_is_line_terminator rest)"

section \<open>Data model\<close>

text \<open>
  A parsed response body. Numbers are restricted to integers; the code only ever tests
  them for truthiness.
\<close>

datatype json = JNull | JBool bool | JNum int | JStr string | JArr "json list"
  | JObj "(string \<times> json) list"

fun truthy :: "json \<Rightarrow> bool" where
  "truthy JNull = False"
| "truthy (JBool b) = b"
| "truthy (JNum n) = (n \<noteq> 0)"
| "truthy (JStr s) = (s \<noteq> [])"
| "truthy (JArr xs) = True"
| "truthy (JObj kvs) = True"

text \<open>Property read \<open>v.key\<close> for the keys the code reads (\<open>choices\<close>, \<open>message\<close>,
  \<open>content\<close>, \<open>error\<close>): \<open>None\<close> is \<open>undefined\<close>. \<open>JSON.parse\<close> keeps the
  last of several equal keys.\<close>

fun js_get :: "json \<Rightarrow> string \<Rightarrow> json option" where
  "js_get (JObj kvs) k = map_of (rev kvs) k"
| "js_get v k = None"

text \<open>\<open>await response.json()\<close>: the message of the parse error, or the value.\<close>

datatype json_result = JsonRejects string | JsonResolves json

record response =
  ok :: bool
  status :: nat
  statusText :: string
  body :: json_result

text \<open>A rejected \<open>fetch\<close> carries the name and the message of the error thrown.\<close>

datatype fetch_result = FetchRejects string string | FetchResolves response

text \<open>
  What one \<open>await fetch(...)\<close> (with the body read that may follow it) does to the run:
  its result, and whether the owner of the run called \<open>cancel()\<close> while the request was
  in flight.
\<close>

record fetch_event =
  fetch_result :: fetch_result
  cancel_called :: bool

record message =
  role :: string
  content :: string

record payload =
  model :: string
  messages :: "message list"
  max_tokens :: nat
  temperature :: rat
  stream :: bool

text \<open>The request handed to \<open>fetch\<close>; \<open>payload\<close> stands for \<open>JSON.stringify(payload)\<close>.\<close>

record request =
  url :: string
  http_method :: string
  headers :: "(string \<times> string) list"
  payload :: payload

record call_options =
  maxTokens :: nat
  opt_temperature :: rat
  label :: string

text \<open>The optional observer callbacks: each field says whether the callback is present.
  A callback only observes; its calls are recorded in the trace of the world.\<close>

record uiHooks =
  onLog :: bool
  onProgressText :: bool
  onPhaseLabel :: bool
  onPhaseProgress :: bool

record researcher =
  apiKey :: string
  modelId :: string
  constraints :: string
  researchLog :: "string list"
  uiHooks :: uiHooks
  active :: bool

datatype event =
    OnLog string
  | OnProgressText string
  | OnPhaseLabel string
  | OnPhaseProgress nat nat
  | ConsoleLog string
  | Fetch request

record world =
  trace :: "event list"
  clock_reads :: nat

text \<open>The platform: the network, the clock, \<open>JSON.stringify\<close> and \<open>window.location.href\<close>.
  The network answers the \<open>n\<close>-th request of a world.\<close>

record env =
  fetch :: "nat \<Rightarrow> request \<Rightarrow> fetch_event"
  toLocaleTimeString :: "nat \<Rightarrow> string"
  JSON_stringify :: "json \<Rightarrow> string"
  location_href :: "string option"

record topic_analysis =
  analysis :: string

record perspective_result =
  error :: "string option"
  initial_research :: string
  critical_analysis :: string
  identified_gaps :: string
  synthesis :: string

text \<open>A JavaScript object with string keys, as the list of its own properties in
  insertion order.\<close>

type_synonym research_map = "(string \<times> perspective_result) list"

record final_report =
  fr_topic :: string
  fr_topic_analysis :: topic_analysis
  fr_perspectives :: "string list"
  fr_deep_research :: research_map
  fr_synthesis :: string
  fr_research_log :: "string list"

section \<open>Configuration\<close>

definition OPENROUTER_URL :: string where
  "OPENROUTER_URL = ''https://openrouter.ai/api/v1/chat/completions''"

definition LOG_MAX_ENTRIES :: nat where
  "LOG_MAX_ENTRIES = 500"

definition REQUEST_TIMEOUT_MS :: nat where
  "REQUEST_TIMEOUT_MS = 180000"

definition HEADERS_META :: "(string \<times> string) list" where
  "HEADERS_META = [(''X-Title'', ''Advanced Research Tool'')]"

section \<open>Actions on a run\<close>

type_synonym state = "researcher \<times> world"

text \<open>An async method: it ends with a thrown message (\<open>Inl\<close>) or a value (\<open>Inr\<close>), and
  with the run and the world as it left them.\<close>

type_synonym 'a action = "state \<Rightarrow> (string + 'a) \<times> state"

definition return :: "'a \<Rightarrow> 'a action" where
  "return v s = (Inr v, s)"

definition throw :: "string \<Rightarrow> 'a action" where
  "throw e s = (Inl e, s)"

definition bind :: "'a action \<Rightarrow> ('a \<Rightarrow> 'b action) \<Rightarrow> 'b action" where
  "bind m f s = (case m s of (Inl e, s') \<Rightarrow> (Inl e, s') | (Inr v, s') \<Rightarrow> f v s')"

definition catch :: "'a action \<Rightarrow> (string \<Rightarrow> 'a action) \<Rightarrow> 'a action" where
  "catch m h s = (case m s of (Inl e, s') \<Rightarrow> h e s' | (Inr v, s') \<Rightarrow> (Inr v, s'))"

definition emit :: "event list \<Rightarrow> unit action" where
  "emit evs s = (Inr (), (fst s, (snd s)\<lparr>trace := trace (snd s) @ evs\<rparr>))"

definition safeGetFirstChoiceContent :: "json \<Rightarrow> string + string" where
  "safeGetFirstChoiceContent data =
     (let malformed = Inl ''Malformed API response: missing choices[0].message.content'' in
      if \<not> truthy data then malformed
      else (case js_get data ''choices'' of
              Some (JArr choices) \<Rightarrow>
                (case choices of
                   [] \<Rightarrow> malformed
                 | c0 # _ \<Rightarrow>
                     if \<not> truthy c0 then malformed
                     else (case js_get c0 ''message'' of
                             None \<Rightarrow> malformed
                           | Some m \<Rightarrow>
                               if \<not> truthy m then malformed
                               else (case js_get m ''content'' of
                                       Some (JStr c) \<Rightarrow> Inr c
                                     | _ \<Rightarrow> malformed)))
            | _ \<Rightarrow> malformed))"

definition cancel :: "researcher \<Rightarrow> researcher" where
  "cancel r = r\<lparr>active := False\<rparr>"

definition ensureActive :: "unit action" where
  "ensureActive s =
     (if \<not> active (fst s) then (Inl ''Research run was cancelled or is no longer active.'', s)
      else (Inr (), s))"

definition format_entry :: "string \<Rightarrow> string \<Rightarrow> string \<Rightarrow> string" where
  "format_entry timestamp level message =
     ''['' @ timestamp @ ''] ['' @ toUpperCase level @ ''] '' @ message"

definition log :: "env \<Rightarrow> string \<Rightarrow> string \<Rightarrow> unit action" where
  "log E message level =
     bind ensureActive (\<lambda>_ s.
       let r = fst s; w = snd s;
           timestamp = toLocaleTimeString E (clock_reads w);
           entry = format_entry timestamp level message;
           pushed = researchLog r @ [entry];
           kept = (if length pushed > LOG_MAX_ENTRIES then tl pushed else pushed);
           ev1 = (if onLog (uiHooks r) then [OnLog entry] else []);
           ev2 = (if onProgressText (uiHooks r)
                  then [OnProgressText (truncateForLog message 140)] else [])
       in (Inr (),
           (r\<lparr>researchLog := kept\<rparr>,
            w\<lparr>trace := trace w @ ev1 @ ev2 @ [ConsoleLog entry],
              clock_reads := Suc (clock_reads w)\<rparr>)))"

section \<open>Completion gateway\<close>

text \<open>The requests that went out to the network, oldest first.\<close>

fun request_of_event :: "event \<Rightarrow> request option" where
  "request_of_event (Fetch q) = Some q"
| "request_of_event e = None"

definition requests_of :: "world \<Rightarrow> request list" where
  "requests_of w = List.map_filter request_of_event (trace w)"

definition fetch_count :: "world \<Rightarrow> nat" where
  "fetch_count w = length (requests_of w)"

definition build_request :: "env \<Rightarrow> researcher \<Rightarrow> message list \<Rightarrow> call_options \<Rightarrow> request" where
  "build_request E r msgs opts =
     \<lparr>url = OPENROUTER_URL,
      http_method = ''POST'',
      headers = [(''Content-Type'', ''application/json''),
                 (''Authorization'', ''Bearer '' @ apiKey r)] @ HEADERS_META
                @ (case location_href E of None \<Rightarrow> [] | Some h \<Rightarrow> [(''HTTP-Referer'', h)]),
      payload = \<lparr>model = modelId r, messages = msgs, max_tokens = maxTokens opts,
                 temperature = opt_temperature opts, stream = False\<rparr>\<rparr>"

text \<open>The suspension point: the request goes out, the network answers, and a
  \<open>cancel()\<close> issued meanwhile has cleared the flag when the method resumes.\<close>

definition await_fetch :: "env \<Rightarrow> request \<Rightarrow> fetch_result action" where
  "await_fetch E req s =
     (let r = fst s; w = snd s; ev = fetch E (fetch_count w) req in
      (Inr (fetch_result ev),
       (if cancel_called ev then cancel r else r, w\<lparr>trace := trace w @ [Fetch req]\<rparr>)))"

text \<open>\<open>errData && (errData.error || errData.message)\<close>, as the value that is stringified.\<close>

definition error_detail_value :: "json \<Rightarrow> json option" where
  "error_detail_value errData =
     (if \<not> truthy errData then None
      else (case js_get errData ''error'' of
              Some v \<Rightarrow> if truthy v then Some v
                        else (case js_get errData ''message'' of
                                Some m \<Rightarrow> if truthy m then Some m else None
                              | None \<Rightarrow> None)
            | None \<Rightarrow> (case js_get errData ''message'' of
                         Some m \<Rightarrow> if truthy m then Some m else None
                       | None \<Rightarrow> None)))"

definition callOpenRouter :: "env \<Rightarrow> message list \<Rightarrow> call_options \<Rightarrow> string action" where
  "callOpenRouter E msgs opts =
     bind ensureActive (\<lambda>_.
       if msgs = [] then throw ''Internal error: messages array is empty.''
       else (\<lambda>s0.
         (let req = build_request E (fst s0) msgs opts in
          bind (log E (label opts @ '': contacting model...'') ''info'') (\<lambda>_.
          bind (await_fetch E req) (\<lambda>res.
            case res of
              FetchRejects name msg \<Rightarrow>
                if name = ''AbortError''
                then throw (label opts @ '' timed out after ''
                            @ string_of_nat (REQUEST_TIMEOUT_MS div 1000) @ ''s.'')
                else throw (label opts @ '' network error: '' @ msg)
            | FetchResolves resp \<Rightarrow>
                if \<not> ok resp
                then (let errorDetail =
                            (case body resp of
                               JsonRejects _ \<Rightarrow> []
                             | JsonResolves errData \<Rightarrow>
                                 (case error_detail_value errData of
                                    None \<Rightarrow> []
                                  | Some v \<Rightarrow> '' Details: '' @ JSON_stringify E v));
                          statusText' = (if statusText resp = [] then ''Unknown error''
                                         else statusText resp);
                          message = label opts @ '' API error: '' @ string_of_nat (status resp)
                                    @ '' '' @ statusText' @ errorDetail
                      in bind (log E message ''error'') (\<lambda>_. throw message))
                else (case body resp of
                        JsonRejects parseError \<Rightarrow>
                          (let message = label opts @ '' failed to parse response JSON: ''
                                         @ parseError
                           in bind (log E message ''error'') (\<lambda>_. throw message))
                      | JsonResolves data \<Rightarrow>
                          (case safeGetFirstChoiceContent data of
                             Inl e \<Rightarrow> throw e
                           | Inr c \<Rightarrow>
                               bind (log E (label opts @ '': response received.'') ''info'')
                                 (\<lambda>_. return c)))))) s0))"

section \<open>Phases\<close>

definition user_message :: "string \<Rightarrow> message list" where
  "user_message prompt = [\<lparr>role = ''user'', content = prompt\<rparr>]"

text \<open>The prompt and the call options of phase 1, as \<open>analyzeTopic\<close> builds them.\<close>

definition analysis_prompt :: "string \<Rightarrow> string" where
  "analysis_prompt topic =
     (let base = ''Perform a comprehensive analysis of the research topic: \"'' @ topic @ ''\"'';
          sections =
            [''Provide:'',
             ''1. TopicCQ: complexity assessment (scale 1-10) with justification.'',
             ''2. Key subtopics and core questions.'',
             ''3. Suitable methodologies and evidence types.'',
             ''4. Critical uncertainties and assumptions.'',
             ''5. Interdisciplinary links worth exploring.'',
             ''6. Current research gaps & data limitations.'',
             [],
             ''Be structured, concise, and decision-useful.'']
      in buildUserPrompt base sections)"

definition analysis_options :: call_options where
  "analysis_options = \<lparr>maxTokens = 2000, opt_temperature = 0.15, label = ''Topic analysis''\<rparr>"

definition analyzeTopic :: "env \<Rightarrow> string \<Rightarrow> topic_analysis action" where
  "analyzeTopic E topic =
     bind ensureActive (\<lambda>_.
     bind (log E ''Phase 1: Analyzing research topic...'' ''info'') (\<lambda>_.
     bind (callOpenRouter E (user_message (analysis_prompt topic)) analysis_options) (\<lambda>a.
     bind (log E ''Topic analysis completed.'' ''info'') (\<lambda>_.
     return \<lparr>analysis = (if a = [] then ''No analysis returned by the model.'' else a)\<rparr>))))"

text \<open>The prompt and the call options of phase 2, as \<open>gatherPerspectives\<close> builds them.\<close>

definition perspectives_prompt :: "string \<Rightarrow> topic_analysis option \<Rightarrow> int \<Rightarrow> string" where
  "perspectives_prompt topic topicAnalysis iterations =
     (let baseAnalysis = (case topicAnalysis of None \<Rightarrow> [] | Some ta \<Rightarrow> analysis ta) in
      buildUserPrompt
        (''Based on the topic \"'' @ topic @ ''\" and the following analysis (if any):\<newline>''
         @ take 2000 baseAnalysis)
        [''Generate between '' @ string_of_int (iterations + 2) @ '' and ''
           @ string_of_int (iterations * 3) @ '' distinct, high-quality research perspectives.'',
         ''Each perspective must be:'',
         ''- Clearly named (start with a bold title).'',
         ''- Methodologically sound and academically relevant.'',
         ''- Non-overlapping and genuinely distinct.'',
         ''- Capable of yielding substantial insight.'',
         [],
         ''Return as a numbered list: \"1. Title: short rationale\".''])"

definition perspectives_options :: call_options where
  "perspectives_options =
     \<lparr>maxTokens = 3000, opt_temperature = 0.35, label = ''Perspective generation''\<rparr>"

text \<open>\<open>Math.max(iterations, 3)\<close> and \<open>perspectives.slice(0, maxPerspectives)\<close>; the bound is
  at least 3, so the slice is a prefix.\<close>

definition gatherPerspectives ::
  "env \<Rightarrow> string \<Rightarrow> topic_analysis option \<Rightarrow> int \<Rightarrow> string list action" where
  "gatherPerspectives E topic topicAnalysis iterations =
     bind ensureActive (\<lambda>_.
     bind (log E ''Phase 2: Generating research perspectives...'' ''info'') (\<lambda>_.
     bind (callOpenRouter E (user_message (perspectives_prompt topic topicAnalysis iterations))
             perspectives_options) (\<lambda>raw.
       let parsed = parsePerspectives raw in
       if length parsed = 0
       then throw ''No perspectives could be parsed from the model response.''
       else (let maxPerspectives = max iterations 3;
                 finalPerspectives = take (nat maxPerspectives) parsed
             in bind (log E (''Generated '' @ string_of_nat (length finalPerspectives)
                             @ '' research perspectives.'') ''info'')
                  (\<lambda>_. return finalPerspectives)))))"

text \<open>The labels of the four calls contain an en dash, U+2013, which lies outside the
  modelled range of code units; it is represented by the code unit 0x96, which like it is
  neither whitespace nor a digit.\<close>

definition en_dash :: string where
  "en_dash = [CHR 0x96]"

definition depth_maxTokens :: "string \<Rightarrow> nat" where
  "depth_maxTokens depth =
     (if depth = ''extreme'' then 6000 else if depth = ''advanced'' then 4000 else 3000)"

definition depth_temperature :: "string \<Rightarrow> rat" where
  "depth_temperature depth =
     (if depth = ''extreme'' then 0.12 else if depth = ''advanced'' then 0.18 else 0.22)"

text \<open>The four prompts of the sub-pipeline, named as the constants that hold them.\<close>

definition constraintSuffix :: "string \<Rightarrow> string" where
  "constraintSuffix cons =
     (if cons \<noteq> []
      then ''\<newline>\<newline>Additionally, respect these constraints / addons:\<newline>'' @ cons
      else [])"

definition initialPrompt :: "string \<Rightarrow> string \<Rightarrow> string" where
  "initialPrompt perspective cons =
     buildUserPrompt
       (''Conduct a thorough investigation into this research perspective:\<newline>\"''
        @ perspective @ ''\"'' @ constraintSuffix cons)
       [''Requirements:'',
        ''- Outline key theories, models, and frameworks.'',
        ''- Summarize major findings and representative studies.'',
        ''- Include concrete examples and (approximate) citations where appropriate.'',
        ''- Identify important datasets, benchmarks, or empirical evidence.'',
        ''- Highlight leading researchers, institutions, and recent developments (last 2-3 years).'',
        ''- Note practical applications, where relevant.'',
        ''- Avoid vague statements; prefer specific details.'']"

definition criticalPrompt :: "string \<Rightarrow> string \<Rightarrow> string" where
  "criticalPrompt perspective initialResearch =
     buildUserPrompt
       (''Critically evaluate the following research overview for \"'' @ perspective
        @ ''\":\<newline>'' @ take 2500 initialResearch)
       [''Provide:'',
        ''1. Strengths and weaknesses of the arguments and evidence.'',
        ''2. Evaluation of methodological quality and limitations.'',
        ''3. Biases and threats to validity.'',
        ''4. Comparison with mainstream / consensus views where applicable.'',
        ''5. Reproducibility and robustness considerations.'']"

definition gapPrompt :: "string \<Rightarrow> string \<Rightarrow> string \<Rightarrow> string" where
  "gapPrompt perspective initialResearch criticalAnalysis =
     buildUserPrompt
       (''Using the perspective \"'' @ perspective
        @ ''\", the research overview, and its critical evaluation:'')
       [''Research overview:\<newline>'' @ take 1500 initialResearch @ ''...'',
        ''Critical analysis:\<newline>'' @ take 1500 criticalAnalysis @ ''...'',
        [],
        ''Identify:'',
        ''1. Concrete research gaps and unanswered questions.'',
        ''2. Opportunities for novel contributions (theoretical & applied).'',
        ''3. Methodological improvements or new study designs.'',
        ''4. Practical & policy implications.'',
        ''5. Interdisciplinary collaboration opportunities.'',
        ''Be specific and actionable. Structure points clearly.'']"

definition synthesisPrompt :: "string \<Rightarrow> string \<Rightarrow> string \<Rightarrow> string \<Rightarrow> string" where
  "synthesisPrompt perspective initialResearch criticalAnalysis identifiedGaps =
     buildUserPrompt
       (''Synthesize a cohesive view for the perspective \"'' @ perspective @ ''\".'')
       [''Base your synthesis on:'',
        ''- Research overview: '' @ take 1500 initialResearch @ ''...'',
        ''- Critical analysis: '' @ take 1000 criticalAnalysis @ ''...'',
        ''- Gaps & opportunities: '' @ take 1000 identifiedGaps @ ''...'',
        [],
        ''Provide:'',
        ''1. Integrated narrative with key insights.'',
        ''2. Assessment of current evidence quality.'',
        ''3. Priority list of research directions (High/Medium/Low).'',
        ''4. Suggested methodologies & datasets for top priorities.'',
        ''5. Practical applications and expected impact.'',
        ''Make it clear, structured, and non-redundant.'']"

definition researchSinglePerspective ::
  "env \<Rightarrow> string \<Rightarrow> string \<Rightarrow> string \<Rightarrow> perspective_result action" where
  "researchSinglePerspective E perspective depth labelPrefix =
     bind ensureActive (\<lambda>_ s0.
       (let maxTokens' = depth_maxTokens depth;
            temperature' = depth_temperature depth
        in bind (callOpenRouter E (user_message (initialPrompt perspective (constraints (fst s0))))
                   \<lparr>maxTokens = maxTokens', opt_temperature = temperature',
                    label = labelPrefix @ '' '' @ en_dash @ '' Initial research''\<rparr>)
             (\<lambda>initialResearch.
           bind (callOpenRouter E (user_message (criticalPrompt perspective initialResearch))
                   \<lparr>maxTokens = 2500, opt_temperature = 0.15,
                    label = labelPrefix @ '' '' @ en_dash @ '' Critical analysis''\<rparr>)
             (\<lambda>criticalAnalysis.
           bind (callOpenRouter E
                   (user_message (gapPrompt perspective initialResearch criticalAnalysis))
                   \<lparr>maxTokens = 2500, opt_temperature = 0.25,
                    label = labelPrefix @ '' '' @ en_dash @ '' Gap analysis''\<rparr>)
             (\<lambda>identifiedGaps.
           bind (callOpenRouter E
                   (user_message
                      (synthesisPrompt perspective initialResearch criticalAnalysis identifiedGaps))
                   \<lparr>maxTokens = 3000, opt_temperature = 0.14,
                    label = labelPrefix @ '' '' @ en_dash @ '' Perspective synthesis''\<rparr>)
             (\<lambda>synthesis'.
           return \<lparr>error = None,
                   initial_research = initialResearch,
                   critical_analysis = criticalAnalysis,
                   identified_gaps = identifiedGaps,
                   synthesis = synthesis'\<rparr>))))) s0)"

text \<open>
  \<open>researchResults[perspective] = value\<close>: a key already present keeps its place, a new
  key goes last, and the key \<open>__proto__\<close> sets the prototype instead of adding a property.
\<close>

fun obj_update :: "string \<Rightarrow> perspective_result \<Rightarrow> research_map \<Rightarrow> research_map" where
  "obj_update k v [] = [(k, v)]"
| "obj_update k v (p # ps) = (if fst p = k then (k, v) # ps else p # obj_update k v ps)"

definition obj_set :: "string \<Rightarrow> perspective_result \<Rightarrow> research_map \<Rightarrow> research_map" where
  "obj_set k v m = (if k = ''__proto__'' then m else obj_update k v m)"

definition failed_result :: "string \<Rightarrow> perspective_result" where
  "failed_result msg =
     \<lparr>error = Some msg, initial_research = [], critical_analysis = [],
      identified_gaps = [], synthesis = []\<rparr>"

definition labelPrefix_of :: "nat \<Rightarrow> int \<Rightarrow> string" where
  "labelPrefix_of i maxPerspectivesToResearch =
     ''Perspective '' @ string_of_nat (i + 1) @ ''/'' @ string_of_int maxPerspectivesToResearch"

text \<open>One turn of the \<open>for\<close> loop of \<open>deepResearch\<close>, for \<open>perspective = perspectives[i]\<close>.\<close>

definition deepResearch_body ::
  "env \<Rightarrow> string \<Rightarrow> int \<Rightarrow> nat \<Rightarrow> string \<Rightarrow> research_map \<Rightarrow> research_map action" where
  "deepResearch_body E depth maxPerspectivesToResearch i perspective researchResults =
     (let labelPrefix = labelPrefix_of i maxPerspectivesToResearch;
          shortName = truncateForLog perspective 80
      in bind (log E (labelPrefix @ '': Deep research for \"'' @ shortName @ ''\"'') ''info'') (\<lambda>_.
         catch
           (bind (researchSinglePerspective E perspective depth labelPrefix)
              (\<lambda>res. return (obj_set perspective res researchResults)))
           (\<lambda>err.
              bind (log E (labelPrefix @ '': Failed - '' @ truncateForLog err 160) ''error'')
                (\<lambda>_. return (obj_set perspective (failed_result err) researchResults)))))"

text \<open>The loop. Its bound is at most \<open>perspectives.length\<close>, so \<open>perspectives ! i\<close> is
  always an element of the list.\<close>

function deepResearch_loop ::
  "env \<Rightarrow> string list \<Rightarrow> string \<Rightarrow> int \<Rightarrow> nat \<Rightarrow> research_map \<Rightarrow> research_map action" where
  "deepResearch_loop E perspectives depth maxPerspectivesToResearch i researchResults s =
     (if int i < maxPerspectivesToResearch
      then (case deepResearch_body E depth maxPerspectivesToResearch i (perspectives ! i)
                   researchResults s of
              (Inl e, s') \<Rightarrow> (Inl e, s')
            | (Inr researchResults', s') \<Rightarrow>
                deepResearch_loop E perspectives depth maxPerspectivesToResearch (Suc i)
                  researchResults' s')
      else (Inr researchResults, s))"
  by pat_completeness auto
termination
  by (relation "measure (\<lambda>(E, ps, d, m, i, rr, s). nat m - i)") auto

declare deepResearch_loop.simps [simp del]

definition deepResearch :: "env \<Rightarrow> string list \<Rightarrow> string \<Rightarrow> int \<Rightarrow> research_map action" where
  "deepResearch E perspectives depth iterations =
     bind ensureActive (\<lambda>_.
     bind (log E ''Phase 3: Running deep research across perspectives...'' ''info'') (\<lambda>_.
       let maxPerspectivesToResearch = min (int (length perspectives)) iterations in
       bind (deepResearch_loop E perspectives depth maxPerspectivesToResearch 0 []) (\<lambda>researchResults.
       bind (log E ''Deep research phase completed.'' ''info'') (\<lambda>_.
       return researchResults))))"

text \<open>
  \<open>Object.keys\<close>: the keys that are array indices (canonical decimal numerals below
  \<open>2\<^sup>3\<^sup>2 - 1\<close>) come first, in ascending numeric order, then the other keys in insertion
  order.
\<close>

definition digit_value :: "char \<Rightarrow> int" where
  "digit_value c = int (length (takeWhile (\<lambda>d. d \<noteq> c) ''0123456789''))"

definition int_of_digits :: "string \<Rightarrow> int" where
  "int_of_digits k = foldl (\<lambda>n c. 10 * n + digit_value c) 0 k"

definition is_array_index :: "string \<Rightarrow> bool" where
  "is_array_index k =
     (k \<noteq> [] \<and> list_all is_digit k \<and> (k = ''0'' \<or> hd k \<noteq> CHR ''0'')
      \<and> int_of_digits k < 2 ^ 32 - 1)"

definition object_keys :: "research_map \<Rightarrow> string list" where
  "object_keys m =
     (let ks = map fst m in
      sort_key int_of_digits (filter is_array_index ks) @ filter (\<lambda>k. \<not> is_array_index k) ks)"

text \<open>The \<open>forEach\<close> over the keys, appending to \<open>researchSummary\<close>.\<close>

fun summarize_perspectives :: "research_map \<Rightarrow> nat \<Rightarrow> string list \<Rightarrow> string" where
  "summarize_perspectives research index [] = []"
| "summarize_perspectives research index (perspective # rest) =
     (let findings = map_of research perspective;
          synthesisSnippet =
            take 800 (case findings of
                        None \<Rightarrow> []
                      | Some f \<Rightarrow> if synthesis f \<noteq> [] then synthesis f else initial_research f);
          heading = ''Perspective '' @ string_of_nat (index + 1) @ '': '' @ perspective @ ''\<newline>'';
          detail =
            (if synthesisSnippet \<noteq> []
             then ''Key findings snippet: '' @ synthesisSnippet @ ''\<newline>\<newline>''
             else (case findings of
                     None \<Rightarrow> []
                   | Some f \<Rightarrow>
                       (case error f of
                          None \<Rightarrow> []
                        | Some e \<Rightarrow>
                            if e \<noteq> [] then ''Error for this perspective: '' @ e @ ''\<newline>\<newline>''
                            else [])))
      in heading @ detail @ summarize_perspectives research (Suc index) rest)"

definition researchSummary_of :: "research_map \<Rightarrow> string \<Rightarrow> string" where
  "researchSummary_of research topic =
     (let keys = object_keys research in
      ''Topic: '' @ topic @ ''\<newline>\<newline>''
      @ (if length keys = 0
         then ''No detailed per-perspective results available; synthesize based on topic-level reasoning only.\<newline>''
         else summarize_perspectives research 0 keys))"

definition globalPrompt :: "string \<Rightarrow> string" where
  "globalPrompt topic =
     (let base = ''Synthesize comprehensive research findings from multiple perspectives on: ''
                 @ topic;
          sections =
            [''Create a detailed research report that includes:'',
             ''1. Executive summary of key findings (max ~300 words).'',
             ''2. Integrated analysis across all perspectives and themes.'',
             ''3. Critical insights and emerging patterns.'',
             ''4. Overall research quality assessment and confidence levels.'',
             ''5. Consolidated gap analysis with prioritized opportunities.'',
             ''6. Concrete recommendations for future research (methods, timelines, resources).'',
             ''7. Practical applications, implementation strategies, and expected impact.'',
             ''8. Limitations of this synthesis (including relying on model-generated text).'',
             [],
             ''Write as a structured, clearly formatted report.'']
      in buildUserPrompt base sections)"

definition synthesizeFindings :: "env \<Rightarrow> research_map option \<Rightarrow> string \<Rightarrow> string action" where
  "synthesizeFindings E research topic =
     bind ensureActive (\<lambda>_.
     bind (log E ''Phase 4: Synthesizing cross-perspective findings...'' ''info'') (\<lambda>_.
       let researchSummary =
             researchSummary_of (case research of None \<Rightarrow> [] | Some m \<Rightarrow> m) topic
       in bind (callOpenRouter E
                  (user_message (globalPrompt topic @ ''\<newline>\<newline>Contextual research summary:\<newline>''
                                 @ take 6000 researchSummary))
                  \<lparr>maxTokens = 5000, opt_temperature = 0.16, label = ''Global synthesis''\<rparr>)
            (\<lambda>synthesis'.
          bind (log E ''Global synthesis completed.'' ''info'') (\<lambda>_.
          return (if synthesis' = [] then ''No synthesis returned by the model.''
                  else synthesis')))))"

definition phaseLabel :: "string \<Rightarrow> unit action" where
  "phaseLabel l s = emit (if onPhaseLabel (uiHooks (fst s)) then [OnPhaseLabel l] else []) s"

definition phaseProgress :: "nat \<Rightarrow> nat \<Rightarrow> unit action" where
  "phaseProgress k n s =
     emit (if onPhaseProgress (uiHooks (fst s)) then [OnPhaseProgress k n] else []) s"

definition conductResearch :: "env \<Rightarrow> string \<Rightarrow> string \<Rightarrow> int \<Rightarrow> final_report action" where
  "conductResearch E topic depth iterations =
     bind ensureActive (\<lambda>_.
     bind (log E ''Initializing full research workflow...'' ''info'') (\<lambda>_.
     bind (phaseLabel ''Phase 1/4: Topic analysis'') (\<lambda>_.
     bind (analyzeTopic E topic) (\<lambda>topicAnalysis.
     bind (phaseProgress 1 4) (\<lambda>_.
     bind (phaseLabel ''Phase 2/4: Perspectives'') (\<lambda>_.
     bind (gatherPerspectives E topic (Some topicAnalysis) iterations) (\<lambda>perspectives.
     bind (phaseProgress 2 4) (\<lambda>_.
     bind (phaseLabel ''Phase 3/4: Deep research'') (\<lambda>_.
     bind (deepResearch E perspectives depth iterations) (\<lambda>deepResearch'.
     bind (phaseProgress 3 4) (\<lambda>_.
     bind (phaseLabel ''Phase 4/4: Global synthesis'') (\<lambda>_.
     bind (synthesizeFindings E (Some deepResearch') topic) (\<lambda>synthesis'.
     bind (phaseProgress 4 4) (\<lambda>_.
     bind (log E ''Research workflow completed successfully.'' ''info'') (\<lambda>_ s.
       (Inr \<lparr>fr_topic = topic,
             fr_topic_analysis = topicAnalysis,
             fr_perspectives = perspectives,
             fr_deep_research = deepResearch',
             fr_synthesis = synthesis',
             fr_research_log = researchLog (fst s)\<rparr>, s))))))))))))))))"

text \<open>\<open>new AdvancedResearcher(apiKey, modelId, constraints, uiHooks)\<close>.\<close>

definition new_researcher :: "string \<Rightarrow> string \<Rightarrow> string \<Rightarrow> uiHooks \<Rightarrow> researcher" where
  "new_researcher key mid cons hooks =
     \<lparr>apiKey = key, modelId = mid, constraints = cons, researchLog = [],
      uiHooks = hooks, active = True\<rparr>"

section \<open>Reference formulations\<close>

text \<open>The body of the parser's loop for one line, as a function of the line.\<close>

definition line_item :: "string \<Rightarrow> string option" where
  "line_item line =
     (let t = trim line in
      if t = [] then None
      else (case numbered_match t of
              Some m2 \<Rightarrow> if m2 \<noteq> [] then Some (trim m2) else None
            | None \<Rightarrow> None))"

definition line_item_units :: "code_unit list \<Rightarrow> code_unit list option" where
  "line_item_units line =
     (let t = trim_units line in
      if t = [] then None
      else (case numbered_match_units t of
              Some m2 \<Rightarrow> if m2 \<noteq> [] then Some (trim_units m2) else None
            | None \<Rightarrow> None))"

text \<open>The run and the world after a call of \<open>log\<close>.\<close>

definition logged :: "env \<Rightarrow> string \<Rightarrow> string \<Rightarrow> state \<Rightarrow> state" where
  "logged E message level s = snd (log E message level s)"


text \<open>The log of a run is within its capacity.\<close>

definition log_bounded :: "state \<Rightarrow> bool" where
  "log_bounded s = (length (researchLog (fst s)) \<le> LOG_MAX_ENTRIES)"


text \<open>A sequence of appends to the log, and the entries they format when the clock has
  been read \<open>n\<close> times before.\<close>

fun log_all :: "env \<Rightarrow> (string \<times> string) list \<Rightarrow> unit action" where
  "log_all E [] = return ()"
| "log_all E (ml # rest) = bind (log E (fst ml) (snd ml)) (\<lambda>_. log_all E rest)"

fun entries_from :: "env \<Rightarrow> nat \<Rightarrow> (string \<times> string) list \<Rightarrow> string list" where
  "entries_from E n [] = []"
| "entries_from E n (ml # rest) =
     format_entry (toLocaleTimeString E n) (snd ml) (fst ml) # entries_from E (Suc n) rest"

section \<open>Concrete runs\<close>

text \<open>A response with status 200 whose first choice carries the given text, no
  \<open>cancel()\<close> arriving meanwhile; a platform whose clock is stuck; a fresh run.\<close>

definition reply :: "string \<Rightarrow> fetch_event" where
  "reply text =
     \<lparr>fetch_result = FetchResolves
        \<lparr>ok = True, status = 200, statusText = ''OK'',
         body = JsonResolves
           (JObj [(''choices'', JArr [JObj [(''message'', JObj [(''content'', JStr text)])]])])\<rparr>,
      cancel_called = False\<rparr>"

definition platform :: "(nat \<Rightarrow> request \<Rightarrow> fetch_event) \<Rightarrow> env" where
  "platform net =
     \<lparr>fetch = net, toLocaleTimeString = (\<lambda>n. ''12:00:00''),
      JSON_stringify = (\<lambda>j. ''{}''), location_href = None\<rparr>"

definition no_hooks :: uiHooks where
  "no_hooks = \<lparr>onLog = False, onProgressText = False, onPhaseLabel = False,
               onPhaseProgress = False\<rparr>"

definition fresh :: state where
  "fresh = (new_researcher ''key'' ''model'' [] no_hooks, \<lparr>trace = [], clock_reads = 0\<rparr>)"

text \<open>The model answers with two numbered lines.\<close>

definition two_lines :: "nat \<Rightarrow> request \<Rightarrow> fetch_event" where
  "two_lines n q = reply ''1. A\<newline>2. B''"

text \<open>The model answers with an empty text.\<close>

definition silent :: "nat \<Rightarrow> request \<Rightarrow> fetch_event" where
  "silent n q = reply []"

text \<open>The model answers every request with the same text.\<close>

definition chatty :: "nat \<Rightarrow> request \<Rightarrow> fetch_event" where
  "chatty n q = reply ''ok''"

text \<open>The first request fails in the network, the later ones are answered.\<close>

definition first_down :: "nat \<Rightarrow> request \<Rightarrow> fetch_event" where
  "first_down n q =
     (if n = 0 then \<lparr>fetch_result = FetchRejects ''TypeError'' ''Failed to fetch'',
                     cancel_called = False\<rparr>
      else reply ''ok'')"

text \<open>Every request is answered, and the owner cancels the run during the first one.\<close>

definition cancelled_in_flight :: "nat \<Rightarrow> request \<Rightarrow> fetch_event" where
  "cancelled_in_flight n q = (reply ''ok'')\<lparr>cancel_called := (n = 0)\<rparr>"

text \<open>Every request times out.\<close>

definition timing_out :: "nat \<Rightarrow> request \<Rightarrow> fetch_event" where
  "timing_out n q =
     \<lparr>fetch_result = FetchRejects ''AbortError'' ''The operation was aborted.'',
      cancel_called = False\<rparr>"

text \<open>Every request is answered with status 500 and a body that is not JSON.\<close>

definition server_error :: "nat \<Rightarrow> request \<Rightarrow> fetch_event" where
  "server_error n q =
     \<lparr>fetch_result = FetchResolves
        \<lparr>ok = False, status = 500, statusText = ''Internal Server Error'',
         body = JsonRejects ''Unexpected token''\<rparr>,
      cancel_called = False\<rparr>"

text \<open>Every request is answered with status 200 and the body \<open>{}\<close>.\<close>

definition empty_object :: "nat \<Rightarrow> request \<Rightarrow> fetch_event" where
  "empty_object n q =
     \<lparr>fetch_result = FetchResolves
        \<lparr>ok = True, status = 200, statusText = ''OK'', body = JsonResolves (JObj [])\<rparr>,
      cancel_called = False\<rparr>"

section \<open>Properties of the perspective parser\<close>

lemma trim_all_ws: "list_all is_ws s \<Longrightarrow> trim s = []"
  by (simp add: trim_def list_all_iff dropWhile_eq_Nil_conv[THEN iffD2])

lemma split_on_all: "list_all P s \<Longrightarrow> list_all (list_all P) (split_on c s)"
proof (induction s)
  case Nil
  then show ?case by simp
next
  case (Cons a s)
  then show ?case by (cases "split_on c s") auto
qed

lemma dropWhile_all: "list_all P s \<Longrightarrow> list_all P (dropWhile Q s)"
  by (auto simp: list_all_iff dest: set_dropWhileD)

lemma split_paragraphs_all: "list_all P s \<Longrightarrow> list_all (list_all P) (split_paragraphs s)"
proof (induction s rule: split_paragraphs.induct)
  case 1
  then show ?case by simp
next
  case (2 c cs)
  have cs: "list_all P cs" and c: "P c" using 2(3) by simp_all
  show ?case
  proof (cases "c = CHR 0x0A \<and> (case cs of [] \<Rightarrow> False | d # _ \<Rightarrow> d = CHR 0x0A)")
    case True
    then show ?thesis using 2(1) dropWhile_all[OF cs] by simp
  next
    case False
    then show ?thesis using 2(2) cs c by (cases "split_paragraphs cs") auto
  qed
qed

lemma parse_lines_all_ws:
  "list_all (list_all is_ws) ls \<Longrightarrow> parse_lines ls acc = acc"
  by (induction ls arbitrary: acc) (simp_all add: trim_all_ws)

lemma paragraphs_all_ws:
  "list_all (list_all is_ws) ps \<Longrightarrow> filter (\<lambda>p. p \<noteq> []) (map trim ps) = []"
  by (induction ps) (simp_all add: trim_all_ws)

lemma trim_last: "trim s \<noteq> [] \<Longrightarrow> \<not> is_ws (last (trim s))"
proof -
  assume a: "trim s \<noteq> []"
  let ?d = "dropWhile is_ws (rev (dropWhile is_ws s))"
  have d: "?d \<noteq> []" using a by (simp add: trim_def)
  have "last (trim s) = hd ?d" using d by (simp add: trim_def last_rev)
  then show ?thesis using hd_dropWhile[OF d] by simp
qed

lemma trim_id: "s \<noteq> [] \<Longrightarrow> \<not> is_ws (hd s) \<Longrightarrow> \<not> is_ws (last s) \<Longrightarrow> trim s = s"
proof -
  assume a: "s \<noteq> []" "\<not> is_ws (hd s)" "\<not> is_ws (last s)"
  have 1: "dropWhile is_ws s = s" using a by (simp add: dropWhile_eq_self_iff)
  have "hd (rev s) = last s" using a by (simp add: hd_rev)
  then have 2: "dropWhile is_ws (rev s) = rev s" using a by (simp add: dropWhile_eq_self_iff)
  show ?thesis by (simp add: trim_def 1 2)
qed

lemma line_item_eq: "line_item line = numbered_item 0 no_line_terminator line"
proof -
  define t where "t = trim line"
  define ds where "ds = takeWhile is_digit t"
  define r1 where "r1 = dropWhile is_digit t"
  have r1_drop: "drop (length ds) t = r1"
    by (simp add: ds_def r1_def dropWhile_eq_drop[symmetric])
  have t_split: "t = ds @ r1" by (simp add: ds_def r1_def)
  have last_t: "t \<noteq> [] \<Longrightarrow> \<not> is_ws (last t)" unfolding t_def by (rule trim_last)
  have lhs: "line_item line = (if t = [] then None else
     (case numbered_match t of Some m2 \<Rightarrow> if m2 \<noteq> [] then Some (trim m2) else None | None \<Rightarrow> None))"
    by (simp add: line_item_def t_def)
  have nm: "numbered_match t = (if ds = [] then None
      else (case r1 of
              [] \<Rightarrow> None
            | c # r2 \<Rightarrow>
                if c = CHR ''.'' \<or> c = CHR '')''
                then (let rest = dropWhile is_ws r2 in
                      if rest \<noteq> []
                      then (if list_ex is_line_terminator rest then None else Some rest)
                      else if r2 \<noteq> [] \<and> \<not> is_line_terminator (last r2) then Some [last r2]
                      else None)
                else None))"
    by (simp add: numbered_match_def ds_def r1_def)
  have rhs: "numbered_item 0 no_line_terminator line =
     (if ds = [] \<or> r1 = [] then None
      else if hd r1 \<noteq> CHR ''.'' \<and> hd r1 \<noteq> CHR '')'' then None
      else (let rest = trim (dropWhile is_ws (tl r1)) in
            if rest = [] \<or> \<not> no_line_terminator rest then None else Some rest))"
    unfolding numbered_item_def Let_def dropWhile_eq_drop[symmetric] t_def[symmetric]
      r1_def[symmetric] ds_def[symmetric]
    by simp
  show ?thesis
  proof (cases "ds = [] \<or> r1 = []")
    case True
    then show ?thesis by (auto simp: lhs nm rhs)
  next
    case False
    then obtain c r2 where r1: "r1 = c # r2" by (cases r1) auto
    from False have ds: "ds \<noteq> []" by simp
    have t_ne: "t \<noteq> []" using t_split ds by auto
    show ?thesis
    proof (cases "c = CHR ''.'' \<or> c = CHR '')''")
      case False
      then show ?thesis using ds t_ne by (simp add: lhs nm rhs r1)
    next
      case True
      define rest where "rest = dropWhile is_ws r2"
      have r2_last: "r2 \<noteq> [] \<Longrightarrow> \<not> is_ws (last r2)"
        using last_t[OF t_ne] t_split r1 by simp
      show ?thesis
      proof (cases "rest = []")
        case True
        have "r2 = []"
        proof (rule ccontr)
          assume "r2 \<noteq> []"
          then have "last r2 \<in> set r2" "\<not> is_ws (last r2)" using r2_last by simp_all
          then show False using True by (auto simp: rest_def)
        qed
        then show ?thesis using ds t_ne \<open>c = CHR ''.'' \<or> c = CHR '')''\<close>
          by (auto simp: lhs nm rhs r1 trim_def)
      next
        case False
        then have r2_ne: "r2 \<noteq> []" by (auto simp: rest_def)
        have hd_rest: "\<not> is_ws (hd rest)" using False unfolding rest_def by (rule hd_dropWhile)
        have "last rest = last r2" unfolding rest_def
          using r2_ne r2_last by (intro dropWhile_last) auto
        then have tr: "trim rest = rest" using False hd_rest r2_last[OF r2_ne] by (intro trim_id) auto
        have lt: "list_ex is_line_terminator rest \<longleftrightarrow> \<not> no_line_terminator rest"
          by (simp add: no_line_terminator_def)
        have ne': "\<not> (\<forall>x\<in>set r2. is_ws x)" using False by (simp add: rest_def)
        show ?thesis using ds t_ne \<open>c = CHR ''.'' \<or> c = CHR '')''\<close> False tr lt ne'
          by (auto simp: lhs nm rhs r1 rest_def[symmetric] Let_def)
      qed
    qed
  qed
qed

lemma parse_lines_items:
  "parse_lines ls acc = acc @ List.map_filter (numbered_item 0 no_line_terminator) ls"
proof (induction ls arbitrary: acc)
  case Nil
  then show ?case by simp
next
  case (Cons l ls)
  show ?case
    using line_item_eq[of l, symmetric] Cons.IH
    by (auto simp: line_item_def Let_def split: option.splits)
qed

subsection \<open>The parser on code units\<close>

lemma trim_units_last: "trim_units s \<noteq> [] \<Longrightarrow> \<not> unit_is_ws (last (trim_units s))"
proof -
  assume a: "trim_units s \<noteq> []"
  let ?d = "dropWhile unit_is_ws (rev (dropWhile unit_is_ws s))"
  have d: "?d \<noteq> []" using a by (simp add: trim_units_def)
  have "last (trim_units s) = hd ?d" using d by (simp add: trim_units_def last_rev)
  then show ?thesis using hd_dropWhile[OF d] by simp
qed

lemma trim_units_id:
  "s \<noteq> [] \<Longrightarrow> \<not> unit_is_ws (hd s) \<Longrightarrow> \<not> unit_is_ws (last s) \<Longrightarrow> trim_units s = s"
proof -
  assume a: "s \<noteq> []" "\<not> unit_is_ws (hd s)" "\<not> unit_is_ws (last s)"
  have 1: "dropWhile unit_is_ws s = s" using a by (simp add: dropWhile_eq_self_iff)
  have "hd (rev s) = last s" using a by (simp add: hd_rev)
  then have 2: "dropWhile unit_is_ws (rev s) = rev s" using a by (simp add: dropWhile_eq_self_iff)
  show ?thesis by (simp add: trim_units_def 1 2)
qed

lemma line_item_units_eq:
  "line_item_units line = numbered_item_units 0 no_line_terminator_units line"
proof -
  define t where "t = trim_units line"
  define ds where "ds = takeWhile unit_is_digit t"
  define r1 where "r1 = dropWhile unit_is_digit t"
  have r1_drop: "drop (length ds) t = r1"
    by (simp add: ds_def r1_def dropWhile_eq_drop[symmetric])
  have t_split: "t = ds @ r1" by (simp add: ds_def r1_def)
  have last_t: "t \<noteq> [] \<Longrightarrow> \<not> unit_is_ws (last t)" unfolding t_def by (rule trim_units_last)
  have lhs: "line_item_units line = (if t = [] then None else
     (case numbered_match_units t of
        Some m2 \<Rightarrow> if m2 \<noteq> [] then Some (trim_units m2) else None
      | None \<Rightarrow> None))"
    by (simp add: line_item_units_def t_def)
  have nm: "numbered_match_units t = (if ds = [] then None
      else (case r1 of
              [] \<Rightarrow> None
            | c # r2 \<Rightarrow>
                if c = 0x2E \<or> c = 0x29
                then (let rest = dropWhile unit_is_ws r2 in
                      if rest \<noteq> []
                      then (if list_ex unit_is_line_terminator rest then None else Some rest)
                      else if r2 \<noteq> [] \<and> \<not> unit_is_line_terminator (last r2)
                      then Some [last r2]
                      else None)
                else None))"
    by (simp add: numbered_match_units_def ds_def r1_def)
  have rhs: "numbered_item_units 0 no_line_terminator_units line =
     (if ds = [] \<or> r1 = [] then None
      else if hd r1 \<noteq> 0x2E \<and> hd r1 \<noteq> 0x29 then None
      else (let rest = trim_units (dropWhile unit_is_ws (tl r1)) in
            if rest = [] \<or> \<not> no_line_terminator_units rest then None else Some rest))"
    unfolding numbered_item_units_def Let_def dropWhile_eq_drop[symmetric] t_def[symmetric]
      r1_def[symmetric] ds_def[symmetric]
    by simp
  show ?thesis
  proof (cases "ds = [] \<or> r1 = []")
    case True
    then show ?thesis by (auto simp: lhs nm rhs)
  next
    case False
    then obtain c r2 where r1: "r1 = c # r2" by (cases r1) auto
    from False have ds: "ds \<noteq> []" by simp
    have t_ne: "t \<noteq> []" using t_split ds by auto
    show ?thesis
    proof (cases "c = 0x2E \<or> c = 0x29")
      case False
      then show ?thesis using ds t_ne by (simp add: lhs nm rhs r1)
    next
      case True
      define rest where "rest = dropWhile unit_is_ws r2"
      have r2_last: "r2 \<noteq> [] \<Longrightarrow> \<not> unit_is_ws (last r2)"
        using last_t[OF t_ne] t_split r1 by simp
      show ?thesis
      proof (cases "rest = []")
        case True
        have "r2 = []"
        proof (rule ccontr)
          assume "r2 \<noteq> []"
          then have "last r2 \<in> set r2" "\<not> unit_is_ws (last r2)" using r2_last by simp_all
          then show False using True by (auto simp: rest_def)
        qed
        then show ?thesis using ds t_ne \<open>c = 0x2E \<or> c = 0x29\<close>
          by (auto simp: lhs nm rhs r1 trim_units_def)
      next
        case False
        then have r2_ne: "r2 \<noteq> []" by (auto simp: rest_def)
        have hd_rest: "\<not> unit_is_ws (hd rest)"
          using False unfolding rest_def by (rule hd_dropWhile)
        have "last rest = last r2" unfolding rest_def
          using r2_ne r2_last by (intro dropWhile_last) auto
        then have tr: "trim_units rest = rest"
          using False hd_rest r2_last[OF r2_ne] by (intro trim_units_id) auto
        have lt: "list_ex unit_is_line_terminator rest \<longleftrightarrow> \<not> no_line_terminator_units rest"
          by (simp add: no_line_terminator_units_def)
        have ne': "\<not> (\<forall>x\<in>set r2. unit_is_ws x)" using False by (simp add: rest_def)
        show ?thesis using ds t_ne \<open>c = 0x2E \<or> c = 0x29\<close> False tr lt ne'
          by (auto simp: lhs nm rhs r1 rest_def[symmetric] Let_def)
      qed
    qed
  qed
qed

lemma parse_lines_units_items:
  "parse_lines_units ls acc
     = acc @ List.map_filter (numbered_item_units 0 no_line_terminator_units) ls"
proof (induction ls arbitrary: acc)
  case Nil
  then show ?case by simp
next
  case (Cons l ls)
  show ?case
    using line_item_units_eq[of l, symmetric] Cons.IH
    by (auto simp: line_item_units_def Let_def split: option.splits)
qed

lemma parsePerspectives_units_spec:
  "parsePerspectives_units raw = parse_spec_units 0 no_line_terminator_units raw"
  by (simp add: parsePerspectives_units_def parse_spec_units_def parse_lines_units_items)

subsection \<open>The 8-bit model is the code-unit model on the code units below 256\<close>

lemma unit_eq: "(of_char d :: nat) = n \<Longrightarrow> ((of_char c :: nat) = n) = (c = d)"
  by auto

lemma unit_is_ws_of_char: "unit_is_ws (of_char c) = is_ws c"
proof -
  have 1: "((of_char c :: nat) = 0x09) = (c = CHR 0x09)" by (rule unit_eq) simp
  have 2: "((of_char c :: nat) = 0x0A) = (c = CHR 0x0A)" by (rule unit_eq) simp
  have 3: "((of_char c :: nat) = 0x0B) = (c = CHR 0x0B)" by (rule unit_eq) simp
  have 4: "((of_char c :: nat) = 0x0C) = (c = CHR 0x0C)" by (rule unit_eq) simp
  have 5: "((of_char c :: nat) = 0x0D) = (c = CHR 0x0D)" by (rule unit_eq) simp
  have 6: "((of_char c :: nat) = 0x20) = (c = CHR 0x20)" by (rule unit_eq) simp
  have 7: "((of_char c :: nat) = 0xA0) = (c = CHR 0xA0)" by (rule unit_eq) simp
  define u :: nat where "u = of_char c"
  have "u < 256" by (simp add: u_def)
  then have big: "\<not> (u = 0x1680 \<or> (0x2000 \<le> u \<and> u \<le> 0x200A) \<or> u = 0x2028 \<or> u = 0x2029
                     \<or> u = 0x202F \<or> u = 0x205F \<or> u = 0x3000 \<or> u = 0xFEFF)"
    by arith
  have "unit_is_ws u = (u = 0x09 \<or> u = 0x0A \<or> u = 0x0B \<or> u = 0x0C \<or> u = 0x0D \<or> u = 0x20
                         \<or> u = 0xA0)"
    using big unfolding unit_is_ws_def by blast
  then show ?thesis unfolding u_def is_ws_def 1 2 3 4 5 6 7 .
qed

lemma unit_is_line_terminator_of_char:
  "unit_is_line_terminator (of_char c) = is_line_terminator c"
proof -
  have 2: "((of_char c :: nat) = 0x0A) = (c = CHR 0x0A)" by (rule unit_eq) simp
  have 5: "((of_char c :: nat) = 0x0D) = (c = CHR 0x0D)" by (rule unit_eq) simp
  define u :: nat where "u = of_char c"
  have "u < 256" by (simp add: u_def)
  then have big: "\<not> (u = 0x2028 \<or> u = 0x2029)" by arith
  have "unit_is_line_terminator u = (u = 0x0A \<or> u = 0x0D)"
    using big unfolding unit_is_line_terminator_def by blast
  then show ?thesis unfolding u_def is_line_terminator_def 2 5 .
qed

lemma unit_is_digit_of_char: "unit_is_digit (of_char c) = is_digit c"
proof -
  have 0: "((of_char c :: nat) = 0x30) = (c = CHR ''0'')" by (rule unit_eq) simp
  have 1: "((of_char c :: nat) = 0x31) = (c = CHR ''1'')" by (rule unit_eq) simp
  have 2: "((of_char c :: nat) = 0x32) = (c = CHR ''2'')" by (rule unit_eq) simp
  have 3: "((of_char c :: nat) = 0x33) = (c = CHR ''3'')" by (rule unit_eq) simp
  have 4: "((of_char c :: nat) = 0x34) = (c = CHR ''4'')" by (rule unit_eq) simp
  have 5: "((of_char c :: nat) = 0x35) = (c = CHR ''5'')" by (rule unit_eq) simp
  have 6: "((of_char c :: nat) = 0x36) = (c = CHR ''6'')" by (rule unit_eq) simp
  have 7: "((of_char c :: nat) = 0x37) = (c = CHR ''7'')" by (rule unit_eq) simp
  have 8: "((of_char c :: nat) = 0x38) = (c = CHR ''8'')" by (rule unit_eq) simp
  have 9: "((of_char c :: nat) = 0x39) = (c = CHR ''9'')" by (rule unit_eq) simp
  have "unit_is_digit (of_char c) =
          ((of_char c :: nat) = 0x30 \<or> (of_char c :: nat) = 0x31 \<or> (of_char c :: nat) = 0x32
           \<or> (of_char c :: nat) = 0x33 \<or> (of_char c :: nat) = 0x34 \<or> (of_char c :: nat) = 0x35
           \<or> (of_char c :: nat) = 0x36 \<or> (of_char c :: nat) = 0x37 \<or> (of_char c :: nat) = 0x38
           \<or> (of_char c :: nat) = 0x39)"
    unfolding unit_is_digit_def by arith
  then show ?thesis unfolding is_digit_def 0 1 2 3 4 5 6 7 8 9 .
qed

lemma unit_dot: "((of_char c :: nat) = 0x2E) = (c = CHR ''.'')" by (rule unit_eq) simp
lemma unit_paren: "((of_char c :: nat) = 0x29) = (c = CHR '')'')" by (rule unit_eq) simp
lemma unit_lf: "((of_char c :: nat) = 0x0A) = (c = CHR 0x0A)" by (rule unit_eq) simp

lemma ws_comp: "unit_is_ws \<circ> of_char = is_ws"
  by (rule ext) (simp add: unit_is_ws_of_char)

lemma digit_comp: "unit_is_digit \<circ> of_char = is_digit"
  by (rule ext) (simp add: unit_is_digit_of_char)

lemma units_of_Nil: "units_of [] = []"
  by (simp add: units_of_def)

lemma units_of_Cons: "units_of (c # cs) = of_char c # units_of cs"
  by (simp add: units_of_def)

lemma units_of_Nil_iff: "(units_of s = []) = (s = [])"
  by (simp add: units_of_def)

lemma dropWhile_ws_units: "dropWhile unit_is_ws (units_of r) = units_of (dropWhile is_ws r)"
  by (simp add: units_of_def dropWhile_map ws_comp)

lemma rev_units_of: "rev (units_of r) = units_of (rev r)"
  by (simp add: units_of_def rev_map)

lemma trim_units_of: "trim_units (units_of s) = units_of (trim s)"
  unfolding trim_units_def trim_def dropWhile_ws_units rev_units_of ..

lemma split_on_units_of:
  "split_on_units 0x0A (units_of s) = map units_of (split_on (CHR 0x0A) s)"
proof (induction s)
  case Nil
  then show ?case by (simp add: units_of_def)
next
  case (Cons a s)
  then show ?case
    by (cases "split_on (CHR 0x0A) s") (simp_all add: units_of_def unit_lf)
qed

lemma dropWhile_lf_units:
  "dropWhile (\<lambda>d. d = 0x0A) (units_of cs) = units_of (dropWhile (\<lambda>d. d = CHR 0x0A) cs)"
  by (induction cs) (simp_all add: units_of_def unit_lf)

lemma split_paragraphs_units_of:
  "split_paragraphs_units (units_of s) = map units_of (split_paragraphs s)"
proof (induction s rule: split_paragraphs.induct)
  case 1
  then show ?case by (simp add: units_of_def)
next
  case (2 c cs)
  show ?case
  proof (cases "c = CHR 0x0A \<and> (case cs of [] \<Rightarrow> False | d # _ \<Rightarrow> d = CHR 0x0A)")
    case True
    then obtain d ds where cs: "cs = d # ds" "d = CHR 0x0A" "c = CHR 0x0A"
      by (cases cs) auto
    have "split_paragraphs_units (units_of (c # cs))
            = [] # split_paragraphs_units (dropWhile (\<lambda>d. d = 0x0A) (units_of cs))"
      using cs by (simp add: units_of_def)
    also have "\<dots> = [] # map units_of (split_paragraphs (dropWhile (\<lambda>d. d = CHR 0x0A) cs))"
      using 2(1)[OF True] by (simp add: dropWhile_lf_units)
    also have "\<dots> = map units_of (split_paragraphs (c # cs))"
      using True by (simp add: units_of_def)
    finally show ?thesis .
  next
    case False
    have F': "\<not> ((of_char c :: nat) = 0x0A
                \<and> (case units_of cs of [] \<Rightarrow> False | d # _ \<Rightarrow> d = 0x0A))"
      using False by (cases cs) (auto simp: units_of_def unit_lf)
    have "split_paragraphs_units (units_of (c # cs))
            = (case split_paragraphs_units (units_of cs) of
                 [] \<Rightarrow> [[of_char c]] | p # ps \<Rightarrow> (of_char c # p) # ps)"
      unfolding units_of_Cons by (simp only: split_paragraphs_units.simps F' if_False)
    also have "\<dots> = map units_of (split_paragraphs (c # cs))"
      using False 2(2)[OF False]
      by (cases "split_paragraphs cs") (simp_all add: units_of_def)
    finally show ?thesis .
  qed
qed

lemma numbered_match_units_of:
  "numbered_match_units (units_of t) = map_option units_of (numbered_match t)"
proof -
  have tw: "takeWhile unit_is_digit (units_of t) = units_of (takeWhile is_digit t)"
    by (simp add: units_of_def takeWhile_map digit_comp)
  have dw: "dropWhile unit_is_digit (units_of t) = units_of (dropWhile is_digit t)"
    by (simp add: units_of_def dropWhile_map digit_comp)
  have dws: "\<And>r. dropWhile unit_is_ws (units_of r) = units_of (dropWhile is_ws r)"
    by (simp add: units_of_def dropWhile_map ws_comp)
  have ex: "\<And>r. list_ex unit_is_line_terminator (units_of r) = list_ex is_line_terminator r"
    by (simp add: units_of_def list_ex_iff unit_is_line_terminator_of_char)
  have la: "\<And>r. r \<noteq> [] \<Longrightarrow> last (units_of r) = of_char (last r)"
    by (simp add: units_of_def last_map)
  show ?thesis
  proof (cases "dropWhile is_digit t")
    case Nil
    show ?thesis
      unfolding numbered_match_units_def numbered_match_def tw dw Let_def Nil units_of_Nil
      by simp
  next
    case (Cons c r2)
    show ?thesis
      unfolding numbered_match_units_def numbered_match_def tw dw Let_def Cons units_of_Cons
      by (simp add: units_of_Nil_iff dws ex la unit_dot unit_paren
          unit_is_line_terminator_of_char units_of_Nil units_of_Cons cong: conj_cong)
  qed
qed

lemma parse_lines_units_of:
  "parse_lines_units (map units_of ls) (map units_of acc) = map units_of (parse_lines ls acc)"
proof (induction ls arbitrary: acc)
  case Nil
  then show ?case by simp
next
  case (Cons l ls)
  have step: "\<And>m. parse_lines_units (map units_of ls) (map units_of acc @ [units_of m])
                 = map units_of (parse_lines ls (acc @ [m]))"
    using Cons.IH[of "acc @ [m]" for m] by simp
  show ?case
    by (cases "numbered_match (trim l)")
      (simp_all add: trim_units_of units_of_Nil_iff numbered_match_units_of Cons.IH step Let_def)
qed

lemma filter_units_of:
  "filter (\<lambda>p. p \<noteq> []) (map (trim_units \<circ> units_of) ps)
     = map units_of (filter (\<lambda>p. p \<noteq> []) (map trim ps))"
  by (induction ps) (simp_all add: trim_units_of units_of_Nil_iff)

lemma parsePerspectives_units_of:
  "parsePerspectives_units (units_of raw) = map units_of (parsePerspectives raw)"
proof -
  have "parse_lines_units (split_on_units 0x0A (units_of raw)) []
          = map units_of (parse_lines (split_on (CHR 0x0A) raw) [])"
    using parse_lines_units_of[of "split_on (CHR 0x0A) raw" "[]"]
    by (simp add: split_on_units_of)
  then show ?thesis
    by (simp add: parsePerspectives_units_def parsePerspectives_def split_paragraphs_units_of
        filter_units_of)
qed

text \<open>
  Claim C4, as stated, asks for the pattern digits, dot or parenthesis, whitespace, rest on
  every line. The code differs on a line whose rest holds a carriage return: the
  regular-expression dot does not match it, so the line is not a numbered item and the
  parser falls back to paragraphs. This holds whether the whitespace of the pattern is
  read as compulsory (\<open>parse_spec 1\<close>) or as optional (\<open>parse_spec 0\<close>). Read as
  compulsory, the pattern also differs from the code on \<open>1.A\<close>, which the code takes as
  the item \<open>A\<close>: in the regular expression the whitespace is optional.
\<close>

theorem parsePerspectives_pattern_counterexample:
  "parsePerspectives (''1. a'' @ [CHR 0x0D] @ ''b'') = [''1. a'' @ [CHR 0x0D] @ ''b'']
   \<and> parse_spec 1 any_rest (''1. a'' @ [CHR 0x0D] @ ''b'') = [''a'' @ [CHR 0x0D] @ ''b'']
   \<and> parse_spec 0 any_rest (''1. a'' @ [CHR 0x0D] @ ''b'') = [''a'' @ [CHR 0x0D] @ ''b'']
   \<and> parsePerspectives (''1. a'' @ [CHR 0x0D] @ ''b'')
       \<noteq> parse_spec 1 any_rest (''1. a'' @ [CHR 0x0D] @ ''b'')
   \<and> parsePerspectives (''1. a'' @ [CHR 0x0D] @ ''b'')
       \<noteq> parse_spec 0 any_rest (''1. a'' @ [CHR 0x0D] @ ''b'')
   \<and> parsePerspectives ''1.A'' = [''A'']
   \<and> parse_spec 1 any_rest ''1.A'' = [''1.A'']"
  by (simp add: parsePerspectives_def parse_spec_def numbered_item_def numbered_match_def
      trim_def is_ws_def is_digit_def is_line_terminator_def any_rest_def)

text \<open>
  Claim C4, amended: \<open>parsePerspectives\<close> splits its input into lines and matches each
  trimmed line against digits, a dot or closing parenthesis, optional whitespace and a
  non-empty rest that holds no line terminator (no carriage return, U+2028 or U+2029; a
  line has no line feed); it keeps the trimmed rests in line order and skips the blank and
  the non-matching lines. When no line matches it splits the raw text on runs of two or
  more line feeds, trims each block and drops the empty ones. This holds of every sequence
  of code units \<open>us\<close>. The 8-bit model of the parser is the code-unit model on the code
  units below 256, and the amended pattern describes it as well. The two examples of the
  claim come out as stated, and a line whose rest holds U+2028 is no numbered item: the
  text \<open>1. a\<close>, U+2028, \<open>b\<close> comes back whole, as one paragraph.
\<close>

theorem parsePerspectives_amended:
  "parsePerspectives_units us = parse_spec_units 0 no_line_terminator_units us
   \<and> parsePerspectives_units (units_of raw) = map units_of (parsePerspectives raw)
   \<and> parsePerspectives raw = parse_spec 0 no_line_terminator raw
   \<and> parsePerspectives ''1. A: x\<newline>2. B: y'' = [''A: x'', ''B: y'']
   \<and> parsePerspectives ''Paragraph one.\<newline>\<newline>Paragraph two.''
       = [''Paragraph one.'', ''Paragraph two.'']
   \<and> parsePerspectives_units [0x31, 0x2E, 0x20, 0x61, 0x2028, 0x62]
       = [[0x31, 0x2E, 0x20, 0x61, 0x2028, 0x62]]"
proof -
  have "parsePerspectives_units us = parse_spec_units 0 no_line_terminator_units us"
    by (simp add: parsePerspectives_units_def parse_spec_units_def parse_lines_units_items)
  moreover have "parsePerspectives_units (units_of raw) = map units_of (parsePerspectives raw)"
    by (rule parsePerspectives_units_of)
  moreover have "parsePerspectives raw = parse_spec 0 no_line_terminator raw"
    by (simp add: parsePerspectives_def parse_spec_def parse_lines_items)
  moreover have "parsePerspectives ''1. A: x\<newline>2. B: y'' = [''A: x'', ''B: y'']"
    by (simp add: parsePerspectives_def numbered_match_def trim_def is_ws_def is_digit_def
        is_line_terminator_def)
  moreover have "parsePerspectives ''Paragraph one.\<newline>\<newline>Paragraph two.''
       = [''Paragraph one.'', ''Paragraph two.'']"
    by (simp add: parsePerspectives_def numbered_match_def trim_def is_ws_def is_digit_def
        is_line_terminator_def)
  moreover have "parsePerspectives_units [0x31, 0x2E, 0x20, 0x61, 0x2028, 0x62]
       = [[0x31, 0x2E, 0x20, 0x61, 0x2028, 0x62]]"
    by (simp add: parsePerspectives_units_def numbered_match_units_def trim_units_def
        unit_is_ws_def unit_is_digit_def unit_is_line_terminator_def)
  ultimately show ?thesis by (intro conjI)
qed

text \<open>
  The theorem at the code units of \<open>1. a\<close>, U+2029, \<open>b\<close>, line feed, \<open>2) c\<close>, where only
  the second line is a numbered item, and at the string \<open>7)  x y\<close>, \<open>note\<close>, \<open>8.z\<close>.
\<close>

theorem parsePerspectives_amended_witness:
  "parsePerspectives_units [0x31, 0x2E, 0x20, 0x61, 0x2029, 0x62, 0x0A, 0x32, 0x29, 0x20, 0x63]
     = parse_spec_units 0 no_line_terminator_units
         [0x31, 0x2E, 0x20, 0x61, 0x2029, 0x62, 0x0A, 0x32, 0x29, 0x20, 0x63]
   \<and> parse_spec_units 0 no_line_terminator_units
         [0x31, 0x2E, 0x20, 0x61, 0x2029, 0x62, 0x0A, 0x32, 0x29, 0x20, 0x63] = [[0x63]]
   \<and> parsePerspectives_units (units_of ''7)  x y \<newline>note\<newline>8.z'')
       = map units_of (parsePerspectives ''7)  x y \<newline>note\<newline>8.z'')
   \<and> parsePerspectives ''7)  x y \<newline>note\<newline>8.z''
       = parse_spec 0 no_line_terminator ''7)  x y \<newline>note\<newline>8.z''
   \<and> parse_spec 0 no_line_terminator ''7)  x y \<newline>note\<newline>8.z'' = [''x y'', ''z'']"
proof -
  note inst = parsePerspectives_amended
      [of "[0x31, 0x2E, 0x20, 0x61, 0x2029, 0x62, 0x0A, 0x32, 0x29, 0x20, 0x63]"
          "''7)  x y \<newline>note\<newline>8.z''"]
  have 1: "parse_spec_units 0 no_line_terminator_units
         [0x31, 0x2E, 0x20, 0x61, 0x2029, 0x62, 0x0A, 0x32, 0x29, 0x20, 0x63] = [[0x63]]"
    by (simp add: parse_spec_units_def numbered_item_units_def trim_units_def unit_is_ws_def
        unit_is_digit_def unit_is_line_terminator_def no_line_terminator_units_def
        List.map_filter_def)
  have 2: "parse_spec 0 no_line_terminator ''7)  x y \<newline>note\<newline>8.z'' = [''x y'', ''z'']"
    by (simp add: parse_spec_def numbered_item_def trim_def is_ws_def is_digit_def
        is_line_terminator_def no_line_terminator_def List.map_filter_def)
  show ?thesis
    by (intro conjI inst[THEN conjunct1] inst[THEN conjunct2, THEN conjunct1]
        inst[THEN conjunct2, THEN conjunct2, THEN conjunct1] 1 2)
qed

section \<open>Properties of the log and of the completion gateway\<close>

lemma requests_of_append:
  "requests_of (w\<lparr>trace := trace w @ evs\<rparr>) = requests_of w @ List.map_filter request_of_event evs"
  by (simp add: requests_of_def List.map_filter_def)

lemma log_if:
  "log E m l s = (if active (fst s) then (Inr (), logged E m l s)
                  else (Inl ''Research run was cancelled or is no longer active.'', s))"
  by (simp add: logged_def log_def bind_def ensureActive_def Let_def)

lemma logged_active [simp]: "active (fst (logged E m l s)) = active (fst s)"
  by (simp add: logged_def log_def bind_def ensureActive_def Let_def)

lemma logged_requests [simp]: "requests_of (snd (logged E m l s)) = requests_of (snd s)"
  by (simp add: logged_def log_def bind_def ensureActive_def Let_def requests_of_def List.map_filter_def)

lemma logged_fields [simp]:
  "constraints (fst (logged E m l s)) = constraints (fst s)"
  "apiKey (fst (logged E m l s)) = apiKey (fst s)"
  "modelId (fst (logged E m l s)) = modelId (fst s)"
  "uiHooks (fst (logged E m l s)) = uiHooks (fst s)"
  by (simp_all add: logged_def log_def bind_def ensureActive_def Let_def)

lemma safeGet_fault: "safeGetFirstChoiceContent data = Inl e \<Longrightarrow>
   e = ''Malformed API response: missing choices[0].message.content''"
  by (auto simp: safeGetFirstChoiceContent_def Let_def
      split: if_splits option.splits json.splits list.splits)

lemmas call_unfold = callOpenRouter_def bind_def throw_def return_def ensureActive_def await_fetch_def
  log_if Let_def


lemma call_Inr_active: "callOpenRouter E msgs opts s = (Inr c, s') \<Longrightarrow> active (fst s')"
  by (auto simp: call_unfold
      split: if_splits fetch_result.splits json_result.splits sum.splits)


lemma call_fields:
  "constraints (fst (snd (callOpenRouter E msgs opts s))) = constraints (fst s)"
  by (auto simp: call_unfold cancel_def
      split: if_splits fetch_result.splits json_result.splits sum.splits)

lemma call_requests:
  "requests_of (snd (snd (callOpenRouter E msgs opts s)))
     = requests_of (snd s) @ (if active (fst s) \<and> msgs \<noteq> [] then [build_request E (fst s) msgs opts] else [])"
  by (auto simp: call_unfold requests_of_append List.map_filter_def build_request_def
      split: if_splits fetch_result.splits json_result.splits sum.splits)

lemma call_Inr_start: "callOpenRouter E msgs opts s = (Inr c, s') \<Longrightarrow> active (fst s)"
  by (auto simp: call_unfold split: if_splits)

lemma logged_researchLog:
  "active (fst s) \<Longrightarrow> researchLog (fst (logged E m l s))
     = (let pushed = researchLog (fst s) @ [format_entry (toLocaleTimeString E (clock_reads (snd s))) l m]
        in if length pushed > LOG_MAX_ENTRIES then tl pushed else pushed)"
  by (simp add: logged_def log_def bind_def ensureActive_def Let_def)

lemma logged_clock:
  "active (fst s) \<Longrightarrow> clock_reads (snd (logged E m l s)) = Suc (clock_reads (snd s))"
  by (simp add: logged_def log_def bind_def ensureActive_def Let_def)

lemma length_entries_from: "length (entries_from E n msgs) = length msgs"
  by (induction msgs arbitrary: n) simp_all

lemma push_capped:
  assumes "length old \<le> LOG_MAX_ENTRIES"
  shows "(let pushed = old @ [e] in if length pushed > LOG_MAX_ENTRIES then tl pushed else pushed)
           = (if length old = LOG_MAX_ENTRIES then tl old else old) @ [e]"
  using assms by (cases old) (auto simp: LOG_MAX_ENTRIES_def)

lemma log_all_ok:
  "active (fst s) \<Longrightarrow> length (researchLog (fst s)) \<le> LOG_MAX_ENTRIES \<Longrightarrow>
     fst (log_all E msgs s) = Inr () \<and> active (fst (snd (log_all E msgs s)))
     \<and> researchLog (fst (snd (log_all E msgs s)))
         = drop (length (researchLog (fst s)) + length msgs - LOG_MAX_ENTRIES)
             (researchLog (fst s) @ entries_from E (clock_reads (snd s)) msgs)"
proof (induction msgs arbitrary: s)
  case Nil
  then show ?case by (simp add: return_def)
next
  case (Cons ml msgs)
  let ?old = "researchLog (fst s)"
  let ?e = "format_entry (toLocaleTimeString E (clock_reads (snd s))) (snd ml) (fst ml)"
  let ?s1 = "logged E (fst ml) (snd ml) s"
  have a1: "active (fst ?s1)" using Cons.prems(1) by simp
  have l1: "researchLog (fst ?s1) = (if length ?old = LOG_MAX_ENTRIES then tl ?old else ?old) @ [?e]"
    using logged_researchLog[OF Cons.prems(1), of E "fst ml" "snd ml"] push_capped[OF Cons.prems(2), of ?e]
    by simp
  have len1: "length (researchLog (fst ?s1)) \<le> LOG_MAX_ENTRIES"
    using Cons.prems(2) by (auto simp: l1 LOG_MAX_ENTRIES_def)
  have c1: "clock_reads (snd ?s1) = Suc (clock_reads (snd s))"
    using logged_clock[OF Cons.prems(1)] by simp
  have step: "log_all E (ml # msgs) s = log_all E msgs ?s1"
    using Cons.prems(1) by (simp add: bind_def log_if)
  have eq: "drop (length (researchLog (fst ?s1)) + length msgs - LOG_MAX_ENTRIES)
              (researchLog (fst ?s1) @ entries_from E (Suc (clock_reads (snd s))) msgs)
          = drop (length ?old + length (ml # msgs) - LOG_MAX_ENTRIES)
              (?old @ entries_from E (clock_reads (snd s)) (ml # msgs))"
  proof (cases "length ?old = LOG_MAX_ENTRIES")
    case True
    then obtain x xs where old: "?old = x # xs" by (cases ?old) (auto simp: LOG_MAX_ENTRIES_def)
    show ?thesis using True by (simp add: l1 old)
  next
    case False
    then show ?thesis using Cons.prems(2) by (simp add: l1)
  qed
  show ?case
    unfolding step using Cons.IH[OF a1 len1] c1 eq by simp
qed

lemma call_requests_dest:
  "callOpenRouter E msgs opts s = (res, s') \<Longrightarrow>
     requests_of (snd s') = requests_of (snd s)
        @ (if active (fst s) \<and> msgs \<noteq> [] then [build_request E (fst s) msgs opts] else [])"
  using call_requests[of E msgs opts s] by simp

lemma call_faults:
  "callOpenRouter E msgs opts s = (Inl e, s') \<Longrightarrow>
     (\<exists>rest. e = label opts @ rest)
     \<or> e = ''Research run was cancelled or is no longer active.''
     \<or> e = ''Internal error: messages array is empty.''
     \<or> e = ''Malformed API response: missing choices[0].message.content''"
  by (auto simp: call_unfold dest: safeGet_fault
      split: if_splits fetch_result.splits json_result.splits sum.splits)

lemma call_cancelled_in_flight:
  "active (fst s) \<Longrightarrow> msgs \<noteq> [] \<Longrightarrow>
   cancel_called (fetch E (fetch_count (snd s)) (build_request E (fst s) msgs opts)) \<Longrightarrow>
     fst (snd (callOpenRouter E msgs opts s))
       = cancel (fst (logged E (label opts @ '': contacting model...'') ''info'' s))"
  by (auto simp: call_unfold fetch_count_def build_request_def cancel_def
      split: if_splits fetch_result.splits json_result.splits sum.splits)

section \<open>Properties of phase 3\<close>













lemma rsp_first_request:
  assumes act: "active (fst s)"
  shows "\<exists>more. requests_of (snd (snd (researchSinglePerspective E p depth lp s)))
      = requests_of (snd s)
        @ build_request E (fst s) (user_message (initialPrompt p (constraints (fst s))))
            \<lparr>maxTokens = depth_maxTokens depth, opt_temperature = depth_temperature depth,
             label = lp @ '' '' @ en_dash @ '' Initial research''\<rparr> # more"
  using act
  by (auto simp: researchSinglePerspective_def bind_def Let_def ensureActive_def return_def
        user_message_def
      split: prod.splits sum.splits dest!: call_requests_dest)

section \<open>Every operation keeps the log within its capacity\<close>

lemma bounded_bind:
  assumes "\<And>s. log_bounded s \<Longrightarrow> log_bounded (snd (m s))"
    and "\<And>v s. log_bounded s \<Longrightarrow> log_bounded (snd (f v s))"
    and "log_bounded s"
  shows "log_bounded (snd (bind m f s))"
proof -
  obtain r s1 where Pair: "m s = (r, s1)" by (cases "m s") auto
  have "log_bounded s1" using assms(1)[OF assms(3)] Pair by simp
  then show ?thesis using Pair assms(2)[of s1] by (cases r) (simp_all add: bind_def)
qed

lemma bounded_catch:
  assumes "\<And>s. log_bounded s \<Longrightarrow> log_bounded (snd (m s))"
    and "\<And>e s. log_bounded s \<Longrightarrow> log_bounded (snd (h e s))"
    and "log_bounded s"
  shows "log_bounded (snd (catch m h s))"
proof -
  obtain r s1 where Pair: "m s = (r, s1)" by (cases "m s") auto
  have "log_bounded s1" using assms(1)[OF assms(3)] Pair by simp
  then show ?thesis using Pair assms(2)[of s1] by (cases r) (simp_all add: catch_def)
qed

lemma bounded_basic:
  "log_bounded s \<Longrightarrow> log_bounded (snd (ensureActive s))"
  "log_bounded s \<Longrightarrow> log_bounded (snd (return v s))"
  "log_bounded s \<Longrightarrow> log_bounded (snd (throw e s))"
  "log_bounded s \<Longrightarrow> log_bounded (snd (phaseLabel l s))"
  "log_bounded s \<Longrightarrow> log_bounded (snd (phaseProgress k n s))"
  "log_bounded s \<Longrightarrow> log_bounded (snd (await_fetch E q s))"
  by (simp_all add: ensureActive_def return_def throw_def phaseLabel_def phaseProgress_def
      emit_def await_fetch_def cancel_def log_bounded_def Let_def)

lemma bounded_log: "log_bounded s \<Longrightarrow> log_bounded (snd (log E m l s))"
  by (auto simp: log_bounded_def log_def bind_def ensureActive_def Let_def LOG_MAX_ENTRIES_def)

lemma bounded_call: "log_bounded s \<Longrightarrow> log_bounded (snd (callOpenRouter E msgs opts s))"
  unfolding callOpenRouter_def Let_def
  by (auto intro!: bounded_bind bounded_basic bounded_log
      split: fetch_result.splits json_result.splits sum.splits)

lemma bounded_rsp:
  "log_bounded s \<Longrightarrow> log_bounded (snd (researchSinglePerspective E p d lp s))"
  unfolding researchSinglePerspective_def Let_def
  by (auto intro!: bounded_bind bounded_basic bounded_call)

lemma bounded_body:
  "log_bounded s \<Longrightarrow> log_bounded (snd (deepResearch_body E d n i p rr s))"
  unfolding deepResearch_body_def Let_def
  by (auto intro!: bounded_bind bounded_catch bounded_basic bounded_log bounded_rsp)

lemma bounded_loop:
  "log_bounded s \<Longrightarrow> log_bounded (snd (deepResearch_loop E ps d n i rr s))"
proof (induction E ps d n i rr s rule: deepResearch_loop.induct)
  case (1 E ps d n i rr s)
  show ?case
  proof (cases "int i < n")
    case False
    then show ?thesis using 1(2) by (subst deepResearch_loop.simps) simp
  next
    case True
    obtain r1 s1 where b: "deepResearch_body E d n i (ps ! i) rr s = (r1, s1)"
      by (cases "deepResearch_body E d n i (ps ! i) rr s") auto
    have b1: "log_bounded s1" using bounded_body[OF 1(2), of E d n i "ps ! i" rr] b by simp
    show ?thesis
    proof (cases r1)
      case (Inl e)
      then show ?thesis using True b b1 by (subst deepResearch_loop.simps) simp
    next
      case (Inr rr')
      from 1(1)[OF True _ _ b1, of "Inr rr'" rr'] b Inr True show ?thesis
        by (subst deepResearch_loop.simps) simp
    qed
  qed
qed

lemma bounded_deep:
  "log_bounded s \<Longrightarrow> log_bounded (snd (deepResearch E ps d n s))"
  unfolding deepResearch_def Let_def
  by (auto intro!: bounded_bind bounded_basic bounded_log bounded_loop)

lemma bounded_analyze:
  "log_bounded s \<Longrightarrow> log_bounded (snd (analyzeTopic E t s))"
  unfolding analyzeTopic_def
  by (auto intro!: bounded_bind bounded_basic bounded_log bounded_call)

lemma bounded_gather:
  "log_bounded s \<Longrightarrow> log_bounded (snd (gatherPerspectives E t ta n s))"
  unfolding gatherPerspectives_def Let_def
  by (auto intro!: bounded_bind bounded_basic bounded_log bounded_call)

lemma bounded_synth:
  "log_bounded s \<Longrightarrow> log_bounded (snd (synthesizeFindings E rm t s))"
  unfolding synthesizeFindings_def Let_def
  by (auto intro!: bounded_bind bounded_basic bounded_log bounded_call)

lemma bounded_conduct:
  "log_bounded s \<Longrightarrow> log_bounded (snd (conductResearch E t d n s))"
  unfolding conductResearch_def
  by (auto intro!: bounded_bind bounded_basic bounded_log bounded_analyze bounded_gather
      bounded_deep bounded_synth)

section \<open>Evaluating concrete runs\<close>

lemmas fixture_defs = platform_def fresh_def reply_def new_researcher_def no_hooks_def

lemmas eval_defs = bind_def return_def throw_def catch_def ensureActive_def log_def
  callOpenRouter_def await_fetch_def fetch_count_def requests_of_def cancel_def
  safeGetFirstChoiceContent_def user_message_def format_entry_def Let_def
  LOG_MAX_ENTRIES_def REQUEST_TIMEOUT_MS_def toUpperCase_def upper_char_def
  string_of_nat.simps string_of_int_def digit_char_def


lemma two_lines_run:
  "fst (gatherPerspectives (platform two_lines) ''sleep'' None 3 fresh) = Inr [''A'', ''B'']"
  by (simp add: gatherPerspectives_def eval_defs fixture_defs two_lines_def build_request_def
      perspectives_options_def parsePerspectives_def numbered_match_def trim_def is_ws_def
      is_digit_def is_line_terminator_def)

lemma silent_call:
  "fst (callOpenRouter (platform silent) msgs opts
          (logged (platform silent) m ''info'' fresh)) = (if msgs = [] then Inl ''Internal error: messages array is empty.'' else Inr [])"
  by (simp add: eval_defs fixture_defs silent_def logged_def build_request_def)

lemma chatty_call:
  "fst (callOpenRouter (platform chatty) msgs opts
          (logged (platform chatty) m ''info'' fresh)) = (if msgs = [] then Inl ''Internal error: messages array is empty.'' else Inr ''ok'')"
  by (simp add: eval_defs fixture_defs chatty_def logged_def build_request_def)

section \<open>Phase 3: failures of single perspectives\<close>




section \<open>Cancellation\<close>

text \<open>
  Claim C2: once \<open>cancel()\<close> has cleared the flag, each of the phase operations, the
  completion gateway and the log raise the cancellation fault and leave the run and the
  world as they were: nothing is written to the run, no request goes out. And when
  \<open>cancel()\<close> arrives while the request of a gateway call is in flight, the call leaves
  the run as it was when the request went out, but for the cleared flag.
\<close>

theorem cancelled_run_faults_first:
  "analyzeTopic E topic (cancel r, w) = (Inl ''Research run was cancelled or is no longer active.'', (cancel r, w))
 \<and> gatherPerspectives E topic ta iterations (cancel r, w) = (Inl ''Research run was cancelled or is no longer active.'', (cancel r, w))
 \<and> deepResearch E ps depth iterations (cancel r, w) = (Inl ''Research run was cancelled or is no longer active.'', (cancel r, w))
 \<and> researchSinglePerspective E p depth lp (cancel r, w) = (Inl ''Research run was cancelled or is no longer active.'', (cancel r, w))
 \<and> synthesizeFindings E research topic (cancel r, w) = (Inl ''Research run was cancelled or is no longer active.'', (cancel r, w))
 \<and> conductResearch E topic depth iterations (cancel r, w) = (Inl ''Research run was cancelled or is no longer active.'', (cancel r, w))
 \<and> callOpenRouter E msgs opts (cancel r, w) = (Inl ''Research run was cancelled or is no longer active.'', (cancel r, w))
 \<and> log E message level (cancel r, w) = (Inl ''Research run was cancelled or is no longer active.'', (cancel r, w))
 \<and> (active (fst s) \<and> msgs \<noteq> []
      \<and> cancel_called (fetch E (fetch_count (snd s)) (build_request E (fst s) msgs opts))
    \<longrightarrow> fst (snd (callOpenRouter E msgs opts s))
          = cancel (fst (logged E (label opts @ '': contacting model...'') ''info'' s)))"
proof -
  have "active (fst s) \<and> msgs \<noteq> []
      \<and> cancel_called (fetch E (fetch_count (snd s)) (build_request E (fst s) msgs opts))
    \<longrightarrow> fst (snd (callOpenRouter E msgs opts s))
          = cancel (fst (logged E (label opts @ '': contacting model...'') ''info'' s))"
    using call_cancelled_in_flight[of s msgs E opts] by blast
  then show ?thesis
    by (simp add: analyzeTopic_def gatherPerspectives_def deepResearch_def
        researchSinglePerspective_def synthesizeFindings_def conductResearch_def
        callOpenRouter_def log_def bind_def ensureActive_def cancel_def)
qed

lemma cancelled_call_log:
  "researchLog (fst (snd (callOpenRouter (platform cancelled_in_flight) (user_message ''hi'')
                            analysis_options fresh)))
     = [''[12:00:00] [INFO] Topic analysis: contacting model...'']
   \<and> active (fst (snd (callOpenRouter (platform cancelled_in_flight) (user_message ''hi'')
                         analysis_options fresh))) = False"
  by (simp add: eval_defs fixture_defs cancelled_in_flight_def build_request_def
      analysis_options_def)

theorem cancelled_run_faults_first_witness:
  "conductResearch (platform chatty) ''sleep'' ''normal'' 3 (cancel (fst fresh), snd fresh)
     = (Inl ''Research run was cancelled or is no longer active.'', (cancel (fst fresh), snd fresh))
   \<and> requests_of (snd fresh) = []
   \<and> fst (snd (callOpenRouter (platform cancelled_in_flight) (user_message ''hi'')
                  analysis_options fresh))
       = cancel (fst (logged (platform cancelled_in_flight)
                        (label analysis_options @ '': contacting model...'') ''info'' fresh))
   \<and> researchLog (fst (snd (callOpenRouter (platform cancelled_in_flight) (user_message ''hi'')
                              analysis_options fresh)))
       = [''[12:00:00] [INFO] Topic analysis: contacting model...'']"
proof -
  have h: "active (fst fresh) \<and> user_message ''hi'' \<noteq> []
      \<and> cancel_called (fetch (platform cancelled_in_flight) (fetch_count (snd fresh))
            (build_request (platform cancelled_in_flight) (fst fresh) (user_message ''hi'')
               analysis_options))"
    by (simp add: fixture_defs cancelled_in_flight_def user_message_def fetch_count_def
        requests_of_def)
  note T = cancelled_run_faults_first[of "platform chatty" "''sleep''" "fst fresh" "snd fresh"
      None 3 "[]" "''normal''" "[]" "[]" None "user_message ''hi''" analysis_options "[]" "[]"
      fresh]
  have a: "conductResearch (platform chatty) ''sleep'' ''normal'' 3 (cancel (fst fresh), snd fresh)
     = (Inl ''Research run was cancelled or is no longer active.'', (cancel (fst fresh), snd fresh))"
    using T by simp
  note U = cancelled_run_faults_first[of "platform cancelled_in_flight" "''sleep''" "fst fresh"
      "snd fresh" None 3 "[]" "''normal''" "[]" "[]" None "user_message ''hi''" analysis_options
      "[]" "[]" fresh]
  have b: "fst (snd (callOpenRouter (platform cancelled_in_flight) (user_message ''hi'')
                  analysis_options fresh))
       = cancel (fst (logged (platform cancelled_in_flight)
                        (label analysis_options @ '': contacting model...'') ''info'' fresh))"
    using U h by simp
  have c: "requests_of (snd fresh) = []" by (simp add: fresh_def requests_of_def)
  show ?thesis using a b c cancelled_call_log by simp
qed

section \<open>Phase 2: the kept perspectives\<close>

text \<open>
  Claim C3, as stated, gives the returned sequence the length \<open>max(iterations, 3)\<close>.
  With \<open>iterations = 3\<close> and a model text of two numbered lines the phase returns two
  perspectives.
\<close>

theorem gatherPerspectives_length_counterexample:
  "fst (gatherPerspectives (platform two_lines) ''sleep'' None 3 fresh) = Inr [''A'', ''B'']
   \<and> length [''A'', ''B''] \<noteq> nat (max 3 3)"
  using two_lines_run by simp

text \<open>
  Claim C3, amended: whenever \<open>gatherPerspectives\<close> returns, the returned sequence is the
  prefix of the perspectives parsed from the model text, in their order, of length
  \<open>min(number parsed, max(iterations, 3))\<close>, and it is not empty.
\<close>

theorem gatherPerspectives_prefix:
  assumes "gatherPerspectives E topic ta iterations s = (Inr ps, s')"
  shows "\<exists>raw. fst (callOpenRouter E (user_message (perspectives_prompt topic ta iterations))
                    perspectives_options
                    (logged E ''Phase 2: Generating research perspectives...'' ''info'' s)) = Inr raw
            \<and> ps = take (nat (max iterations 3)) (parsePerspectives raw)
            \<and> length ps = min (length (parsePerspectives raw)) (nat (max iterations 3))
            \<and> ps \<noteq> []"
  using assms
  by (auto simp: gatherPerspectives_def bind_def ensureActive_def log_if throw_def return_def Let_def
      split: if_splits prod.splits sum.splits)

theorem gatherPerspectives_prefix_witness:
  "\<exists>raw. fst (callOpenRouter (platform two_lines)
                 (user_message (perspectives_prompt ''sleep'' None 3)) perspectives_options
                 (logged (platform two_lines) ''Phase 2: Generating research perspectives...''
                    ''info'' fresh)) = Inr raw
         \<and> [''A'', ''B''] = take (nat (max 3 3)) (parsePerspectives raw)
         \<and> length [''A'', ''B''] = min (length (parsePerspectives raw)) (nat (max 3 3))
         \<and> [''A'', ''B''] \<noteq> []"
proof -
  have "gatherPerspectives (platform two_lines) ''sleep'' None 3 fresh
          = (Inr [''A'', ''B''], snd (gatherPerspectives (platform two_lines) ''sleep'' None 3 fresh))"
    by (intro prod_eqI) (simp_all add: two_lines_run)
  from gatherPerspectives_prefix[OF this] show ?thesis .
qed

section \<open>Phase 2: an empty parse\<close>

text \<open>
  Claim C5: on an input that is empty or holds only whitespace the numbered-list path
  and the paragraph fallback both come out empty, so \<open>parsePerspectives\<close> returns the
  empty sequence; and whenever the model text of phase 2 parses to no perspective,
  \<open>gatherPerspectives\<close> raises the fault that no perspectives could be parsed.
\<close>

theorem empty_parse_is_fatal:
  "(list_all is_ws raw \<longrightarrow>
      parse_lines (split_on CHR 0x0A raw) [] = []
      \<and> filter (\<lambda>p. p \<noteq> []) (map trim (split_paragraphs raw)) = []
      \<and> parsePerspectives raw = [])
   \<and> (fst (callOpenRouter E (user_message (perspectives_prompt topic ta iterations))
              perspectives_options
              (logged E ''Phase 2: Generating research perspectives...'' ''info'' s)) = Inr text
        \<and> parsePerspectives text = []
      \<longrightarrow> fst (gatherPerspectives E topic ta iterations s)
            = Inl ''No perspectives could be parsed from the model response.'')"
proof (intro conjI impI)
  assume ws: "list_all is_ws raw"
  show "parse_lines (split_on CHR 0x0A raw) [] = []"
    by (rule parse_lines_all_ws[OF split_on_all[OF ws]])
  show "filter (\<lambda>p. p \<noteq> []) (map trim (split_paragraphs raw)) = []"
    by (rule paragraphs_all_ws[OF split_paragraphs_all[OF ws]])
  then show "parsePerspectives raw = []"
    by (simp add: parsePerspectives_def parse_lines_all_ws[OF split_on_all[OF ws]])
next
  let ?s1 = "logged E ''Phase 2: Generating research perspectives...'' ''info'' s"
  assume a: "fst (callOpenRouter E (user_message (perspectives_prompt topic ta iterations))
              perspectives_options ?s1) = Inr text \<and> parsePerspectives text = []"
  then obtain s2 where c: "callOpenRouter E (user_message (perspectives_prompt topic ta iterations))
              perspectives_options ?s1 = (Inr text, s2)"
    by (cases "callOpenRouter E (user_message (perspectives_prompt topic ta iterations))
              perspectives_options ?s1") auto
  have "active (fst ?s1)" using call_Inr_start[OF c] .
  then have act: "active (fst s)" by simp
  show "fst (gatherPerspectives E topic ta iterations s)
            = Inl ''No perspectives could be parsed from the model response.''"
    using act c a
    by (simp add: gatherPerspectives_def bind_def ensureActive_def log_if throw_def Let_def)
qed

theorem empty_parse_is_fatal_witness:
  "list_all is_ws '' \<newline>  ''
   \<and> parsePerspectives '' \<newline>  '' = []
   \<and> parsePerspectives [] = []
   \<and> fst (gatherPerspectives (platform silent) ''sleep'' None 3 fresh)
       = Inl ''No perspectives could be parsed from the model response.''"
proof -
  have ws: "list_all is_ws '' \<newline>  ''" by (simp add: is_ws_def)
  have e: "parsePerspectives [] = []"
    by (simp add: parsePerspectives_def trim_def)
  have c: "fst (callOpenRouter (platform silent) (user_message (perspectives_prompt ''sleep'' None 3))
              perspectives_options
              (logged (platform silent) ''Phase 2: Generating research perspectives...'' ''info'' fresh)) = Inr []"
    by (simp add: silent_call user_message_def)
  note T = empty_parse_is_fatal[of "'' \<newline>  ''" "platform silent" "''sleep''" None 3 fresh "[]"]
  show ?thesis using T ws e c by simp
qed

section \<open>The research log\<close>

text \<open>
  Claim C6: the capacity is 500. On an active run whose buffer holds at most 500 entries,
  an append puts the new entry at the back and drops the oldest entry exactly when the
  buffer was full; after any sequence of appends the buffer is the end of the old buffer
  followed by the new entries, at most 500 long, and after 501 appends it is the last 500
  of the new entries, oldest first. The whole workflow, whatever its outcome, leaves at
  most 500 entries in the buffer.
\<close>

theorem log_buffer_bounded:
  assumes act: "active (fst s)" and len: "length (researchLog (fst s)) \<le> LOG_MAX_ENTRIES"
  shows "LOG_MAX_ENTRIES = 500
    \<and> fst (log E message level s) = Inr ()
    \<and> researchLog (fst (snd (log E message level s)))
        = (if length (researchLog (fst s)) = LOG_MAX_ENTRIES then tl (researchLog (fst s))
           else researchLog (fst s))
          @ [format_entry (toLocaleTimeString E (clock_reads (snd s))) level message]
    \<and> fst (log_all E msgs s) = Inr ()
    \<and> researchLog (fst (snd (log_all E msgs s)))
        = drop (length (researchLog (fst s)) + length msgs - LOG_MAX_ENTRIES)
            (researchLog (fst s) @ entries_from E (clock_reads (snd s)) msgs)
    \<and> length (researchLog (fst (snd (log_all E msgs s)))) \<le> LOG_MAX_ENTRIES
    \<and> (length msgs = 501 \<longrightarrow>
          researchLog (fst (snd (log_all E msgs s)))
            = drop 1 (entries_from E (clock_reads (snd s)) msgs)
          \<and> length (researchLog (fst (snd (log_all E msgs s)))) = 500)
    \<and> length (researchLog (fst (snd (conductResearch E topic depth iterations s))))
        \<le> LOG_MAX_ENTRIES"
proof -
  have one: "researchLog (fst (snd (log E message level s)))
        = (if length (researchLog (fst s)) = LOG_MAX_ENTRIES then tl (researchLog (fst s))
           else researchLog (fst s))
          @ [format_entry (toLocaleTimeString E (clock_reads (snd s))) level message]"
    using logged_researchLog[OF act, of E message level] push_capped[OF len]
    by (simp add: logged_def)
  have ok1: "fst (log E message level s) = Inr ()" using act by (simp add: log_if)
  note all = log_all_ok[OF act len, of E msgs]
  have bound: "length (researchLog (fst (snd (log_all E msgs s)))) \<le> LOG_MAX_ENTRIES"
    using all len by (simp add: length_entries_from)
  have last500: "researchLog (fst (snd (log_all E msgs s)))
            = drop 1 (entries_from E (clock_reads (snd s)) msgs)
          \<and> length (researchLog (fst (snd (log_all E msgs s)))) = 500" if "length msgs = 501"
    using all len that by (simp add: LOG_MAX_ENTRIES_def length_entries_from)
  have "log_bounded s" using len by (simp add: log_bounded_def)
  then have run: "length (researchLog (fst (snd (conductResearch E topic depth iterations s))))
        \<le> LOG_MAX_ENTRIES"
    using bounded_conduct[of s E topic depth iterations] by (simp add: log_bounded_def)
  show ?thesis using one ok1 all bound last500 run by (simp add: LOG_MAX_ENTRIES_def)
qed

theorem log_buffer_bounded_witness:
  "researchLog (fst (snd (log_all (platform chatty) (replicate 501 (''tick'', ''info'')) fresh)))
     = drop 1 (entries_from (platform chatty) 0 (replicate 501 (''tick'', ''info'')))
   \<and> length (researchLog (fst (snd (log_all (platform chatty) (replicate 501 (''tick'', ''info'')) fresh)))) = 500
   \<and> researchLog (fst (snd (log (platform chatty) ''tick'' ''info'' fresh))) = [''[12:00:00] [INFO] tick'']
   \<and> length (researchLog (fst (snd (conductResearch (platform chatty) ''sleep'' ''normal'' 3 fresh))))
       \<le> 500"
proof -
  have act: "active (fst fresh)" by (simp add: fresh_def new_researcher_def)
  have len: "length (researchLog (fst fresh)) \<le> LOG_MAX_ENTRIES"
    by (simp add: fresh_def new_researcher_def)
  have c: "clock_reads (snd fresh) = 0" "researchLog (fst fresh) = []"
    by (simp_all add: fresh_def new_researcher_def)
  have f: "format_entry (toLocaleTimeString (platform chatty) 0) ''info'' ''tick'' = ''[12:00:00] [INFO] tick''"
    by (simp add: format_entry_def platform_def toUpperCase_def upper_char_def)
  show ?thesis
    using log_buffer_bounded[OF act len, of "platform chatty" "''tick''" "''info''"
        "replicate 501 (''tick'', ''info'')" "''sleep''" "''normal''" 3]
    by (simp add: c f LOG_MAX_ENTRIES_def length_entries_from)
qed

section \<open>Phase 1: the analysis text\<close>

text \<open>
  Claim C9: when the model call of phase 1 returns a text, \<open>analyzeTopic\<close> returns the
  topic analysis holding that text, or the fixed fallback string when the text is empty.
\<close>

theorem analyzeTopic_text_or_fallback:
  assumes "fst (callOpenRouter E (user_message (analysis_prompt topic)) analysis_options
                 (logged E ''Phase 1: Analyzing research topic...'' ''info'' s)) = Inr text"
  shows "fst (analyzeTopic E topic s)
           = Inr \<lparr>analysis = (if text = [] then ''No analysis returned by the model.'' else text)\<rparr>"
proof -
  let ?s1 = "logged E ''Phase 1: Analyzing research topic...'' ''info'' s"
  obtain s2 where c: "callOpenRouter E (user_message (analysis_prompt topic)) analysis_options ?s1
                        = (Inr text, s2)"
    using assms
    by (cases "callOpenRouter E (user_message (analysis_prompt topic)) analysis_options ?s1") auto
  have "active (fst ?s1)" using call_Inr_start[OF c] .
  then have act: "active (fst s)" by simp
  have a2: "active (fst s2)" using call_Inr_active[OF c] .
  show ?thesis
    using act a2 c
    by (simp add: analyzeTopic_def bind_def ensureActive_def log_if return_def)
qed

theorem analyzeTopic_text_or_fallback_witness:
  "fst (analyzeTopic (platform chatty) ''sleep'' fresh) = Inr \<lparr>analysis = ''ok''\<rparr>
   \<and> fst (analyzeTopic (platform silent) ''sleep'' fresh)
       = Inr \<lparr>analysis = ''No analysis returned by the model.''\<rparr>"
proof -
  have c1: "fst (callOpenRouter (platform chatty) (user_message (analysis_prompt ''sleep''))
              analysis_options
              (logged (platform chatty) ''Phase 1: Analyzing research topic...'' ''info'' fresh)) = Inr ''ok''"
    by (simp add: chatty_call user_message_def)
  have c2: "fst (callOpenRouter (platform silent) (user_message (analysis_prompt ''sleep''))
              analysis_options
              (logged (platform silent) ''Phase 1: Analyzing research topic...'' ''info'' fresh)) = Inr []"
    by (simp add: silent_call user_message_def)
  show ?thesis
    using analyzeTopic_text_or_fallback[OF c1] analyzeTopic_text_or_fallback[OF c2] by simp
qed

section \<open>The depth of the initial research\<close>

text \<open>
  Claim C10: for a depth other than \<open>extreme\<close> and \<open>advanced\<close> the budget is 3000 tokens
  at temperature 0.22; \<open>researchSinglePerspective\<close> does exactly what it does for the depth
  \<open>normal\<close> (so it raises nothing of its own for the unknown depth), and on an active run
  the first request it sends is the initial-research prompt with that budget.
\<close>

theorem unknown_depth_is_normal:
  assumes "depth \<noteq> ''extreme''" and "depth \<noteq> ''advanced''"
  shows "depth_maxTokens depth = 3000 \<and> depth_temperature depth = 0.22
    \<and> researchSinglePerspective E p depth lp s = researchSinglePerspective E p ''normal'' lp s
    \<and> (active (fst s) \<longrightarrow>
         (\<exists>q more. requests_of (snd (snd (researchSinglePerspective E p depth lp s)))
                     = requests_of (snd s) @ q # more
            \<and> messages (payload q) = user_message (initialPrompt p (constraints (fst s)))
            \<and> max_tokens (payload q) = 3000 \<and> temperature (payload q) = 0.22))"
proof -
  have b: "depth_maxTokens depth = 3000" "depth_temperature depth = 0.22"
    using assms by (simp_all add: depth_maxTokens_def depth_temperature_def)
  have n: "depth_maxTokens ''normal'' = 3000" "depth_temperature ''normal'' = 0.22"
    by (simp_all add: depth_maxTokens_def depth_temperature_def)
  have same: "researchSinglePerspective E p depth lp s = researchSinglePerspective E p ''normal'' lp s"
    by (simp add: researchSinglePerspective_def b n)
  have req: "\<exists>q more. requests_of (snd (snd (researchSinglePerspective E p depth lp s)))
                     = requests_of (snd s) @ q # more
            \<and> messages (payload q) = user_message (initialPrompt p (constraints (fst s)))
            \<and> max_tokens (payload q) = 3000 \<and> temperature (payload q) = 0.22"
    if act: "active (fst s)"
  proof -
    let ?q = "build_request E (fst s) (user_message (initialPrompt p (constraints (fst s))))
            \<lparr>maxTokens = depth_maxTokens depth, opt_temperature = depth_temperature depth,
             label = lp @ '' '' @ en_dash @ '' Initial research''\<rparr>"
    from rsp_first_request[OF act, of E p depth lp]
    obtain more where m: "requests_of (snd (snd (researchSinglePerspective E p depth lp s)))
      = requests_of (snd s) @ ?q # more" by blast
    have "messages (payload ?q) = user_message (initialPrompt p (constraints (fst s)))"
      "max_tokens (payload ?q) = 3000" "temperature (payload ?q) = 0.22"
      by (simp_all add: build_request_def b)
    with m show ?thesis by blast
  qed
  show ?thesis using b same req by simp
qed

theorem unknown_depth_is_normal_witness:
  "depth_maxTokens ''exterme'' = 3000 \<and> depth_temperature ''exterme'' = 0.22
   \<and> researchSinglePerspective (platform chatty) ''A'' ''exterme'' ''Perspective 1/1'' fresh
       = researchSinglePerspective (platform chatty) ''A'' ''normal'' ''Perspective 1/1'' fresh
   \<and> (\<exists>q more. requests_of (snd (snd (researchSinglePerspective (platform chatty) ''A'' ''exterme''
                                        ''Perspective 1/1'' fresh)))
                 = q # more
        \<and> messages (payload q) = user_message (initialPrompt ''A'' [])
        \<and> max_tokens (payload q) = 3000 \<and> temperature (payload q) = 0.22)"
proof -
  have d: "''exterme'' \<noteq> ''extreme''" "''exterme'' \<noteq> ''advanced''" by simp_all
  have act: "active (fst fresh)" "constraints (fst fresh) = []" "requests_of (snd fresh) = []"
    by (simp_all add: fresh_def new_researcher_def requests_of_def)
  note T = unknown_depth_is_normal[OF d, of "platform chatty" "''A''" "''Perspective 1/1''" fresh]
  note T1 = T[THEN conjunct1]
  note T2 = T[THEN conjunct2, THEN conjunct1]
  note T3 = T[THEN conjunct2, THEN conjunct2, THEN conjunct1]
  note T4 = T[THEN conjunct2, THEN conjunct2, THEN conjunct2, rule_format, OF act(1),
      unfolded act(2) act(3) append_Nil]
  show ?thesis by (intro conjI T1 T2 T3 T4)
qed

section \<open>Faults of the completion gateway\<close>

text \<open>
  Claim C7 fails on the code for the malformed-response fault: a response with status 200
  and the body \<open>{}\<close> makes \<open>callOpenRouter\<close> raise the message of
  \<open>safeGetFirstChoiceContent\<close> unchanged, which does not begin with the label of the
  call, whereas the timeout fault of the same call does.
\<close>

theorem malformed_fault_lacks_label:
  "label analysis_options = ''Topic analysis''
   \<and> fst (callOpenRouter (platform empty_object) (user_message ''hi'') analysis_options fresh)
       = Inl ''Malformed API response: missing choices[0].message.content''
   \<and> take (length (label analysis_options))
        ''Malformed API response: missing choices[0].message.content'' \<noteq> label analysis_options
   \<and> fst (callOpenRouter (platform timing_out) (user_message ''hi'') analysis_options fresh)
       = Inl ''Topic analysis timed out after 180s.''"
  by (simp add: eval_defs fixture_defs empty_object_def timing_out_def build_request_def
      analysis_options_def)

text \<open>
  Claim C8 fails on the code for three of the five faults: after a timeout, a network
  failure or a malformed response the log holds the entry "contacting model" and no entry
  at error level, whereas an HTTP fault is logged at error level before it is raised. A
  success is framed by the entries "contacting model" and "response received".
\<close>

theorem timeout_fault_is_not_logged:
  "fst (callOpenRouter (platform chatty) (user_message ''hi'') analysis_options fresh) = Inr ''ok''
   \<and> researchLog (fst (snd (callOpenRouter (platform chatty) (user_message ''hi'')
                               analysis_options fresh)))
       = [''[12:00:00] [INFO] Topic analysis: contacting model...'',
          ''[12:00:00] [INFO] Topic analysis: response received.'']
   \<and> fst (callOpenRouter (platform timing_out) (user_message ''hi'') analysis_options fresh)
       = Inl ''Topic analysis timed out after 180s.''
   \<and> researchLog (fst (snd (callOpenRouter (platform timing_out) (user_message ''hi'')
                               analysis_options fresh)))
       = [''[12:00:00] [INFO] Topic analysis: contacting model...'']
   \<and> fst (callOpenRouter (platform first_down) (user_message ''hi'') analysis_options fresh)
       = Inl ''Topic analysis network error: Failed to fetch''
   \<and> researchLog (fst (snd (callOpenRouter (platform first_down) (user_message ''hi'')
                               analysis_options fresh)))
       = [''[12:00:00] [INFO] Topic analysis: contacting model...'']
   \<and> fst (callOpenRouter (platform empty_object) (user_message ''hi'') analysis_options fresh)
       = Inl ''Malformed API response: missing choices[0].message.content''
   \<and> researchLog (fst (snd (callOpenRouter (platform empty_object) (user_message ''hi'')
                               analysis_options fresh)))
       = [''[12:00:00] [INFO] Topic analysis: contacting model...'']
   \<and> fst (callOpenRouter (platform server_error) (user_message ''hi'') analysis_options fresh)
       = Inl ''Topic analysis API error: 500 Internal Server Error''
   \<and> researchLog (fst (snd (callOpenRouter (platform server_error) (user_message ''hi'')
                               analysis_options fresh)))
       = [''[12:00:00] [INFO] Topic analysis: contacting model...'',
          ''[12:00:00] [ERROR] Topic analysis API error: 500 Internal Server Error'']"
  by (simp add: eval_defs fixture_defs empty_object_def timing_out_def first_down_def
      server_error_def chatty_def build_request_def analysis_options_def)

end
